theory Spec2Isabelle
  imports Main "HOL-Library.AList" "HOL-Library.List_Lexorder" "HOL-Library.Char_ord"
begin

section \<open>Python strings and exceptions\<close>

text \<open>
  A Python \<open>str\<close> is modelled as a \<open>string\<close>: one list element per character of the
  Python string, so \<open>length\<close> is Python's \<open>len\<close>. The exceptions that the modelled
  functions raise or let through are the constructors of \<open>exn\<close>; a function
  that can raise returns \<open>exn + 'a\<close>, with \<open>Inl\<close> for the raised exception.
\<close>

datatype exn =
    CalledProcessError int string string
  | FileNotFoundError
  | RuntimeError string
  | ValueError string
  | KeyError string
  | TypeError
  | AttributeError
  | MarkupError string
  | Abort

text \<open>
  \<open>s[:n]\<close> for an integer \<open>n\<close>: the first \<open>n\<close> characters when \<open>n\<close> is not negative,
  all but the last \<open>-n\<close> characters otherwise.
\<close>

definition py_slice_to :: "string \<Rightarrow> int \<Rightarrow> string" where
  "py_slice_to s n = (if 0 \<le> n then take (nat n) s else take (nat (int (length s) + n)) s)"

text \<open>
  \<open>str.isspace\<close> on one character, for the characters below 256: tab to carriage return,
  the four information separators, the space, NEL and the no-break space.
  \<open>s.strip()\<close> removes them at both ends.
\<close>

definition py_isspace :: "char \<Rightarrow> bool" where
  "py_isspace c =
     (let n = (of_char c :: nat)
      in (9 \<le> n \<and> n \<le> 13) \<or> (28 \<le> n \<and> n \<le> 32) \<or> n = 133 \<or> n = 160)"

definition py_strip :: "string \<Rightarrow> string" where
  "py_strip s = rev (dropWhile py_isspace (rev (dropWhile py_isspace s)))"

text \<open>
  \<open>s.replace(old, new)\<close>: every occurrence of \<open>old\<close>, found from the left and not
  overlapping, becomes \<open>new\<close>; an empty \<open>old\<close> matches before every character and at
  the end.
\<close>

function py_replace :: "string \<Rightarrow> string \<Rightarrow> string \<Rightarrow> string" where
  "py_replace old new s =
     (if old = [] then new @ concat (map (\<lambda>c. c # new) s)
      else if s = [] then []
      else if take (length old) s = old
        then new @ py_replace old new (drop (length old) s)
        else hd s # py_replace old new (tl s))"
  by pat_completeness auto
termination
  by (relation "measure (\<lambda>(old, new, s). length s)") (auto simp: neq_Nil_conv)

declare py_replace.simps [simp del]

text \<open>
  \<open>s.splitlines()\<close> for the characters below 256: a line ends at a line feed, a carriage
  return (with a line feed right after it, if any), a vertical tab, a form feed, one of the
  separators 0x1C to 0x1E, or NEL; the boundaries are not kept, and there is no empty
  last line.
\<close>

definition py_linebreak :: "char \<Rightarrow> bool" where
  "py_linebreak c =
     (let n = (of_char c :: nat)
      in (10 \<le> n \<and> n \<le> 13) \<or> (28 \<le> n \<and> n \<le> 30) \<or> n = 133)"

fun splitlines_acc :: "string \<Rightarrow> string \<Rightarrow> string list" where
  "splitlines_acc cur [] = (if cur = [] then [] else [rev cur])"
| "splitlines_acc cur [c] =
     (if py_linebreak c then [rev cur] else [rev (c # cur)])"
| "splitlines_acc cur (c # d # rest) =
     (if c = CHR 0x0D \<and> d = CHR 0x0A then rev cur # splitlines_acc [] rest
      else if py_linebreak c then rev cur # splitlines_acc [] (d # rest)
      else splitlines_acc (c # cur) (d # rest))"

definition py_splitlines :: "string \<Rightarrow> string list" where
  "py_splitlines s = splitlines_acc [] s"

section \<open>The subprocess interface\<close>

text \<open>
  The operating system is a function from the argument vector of a child process to what
  became of it: it ran and exited with a return code, its standard output and its
  standard error, or the program was not found. \<open>subprocess.run\<close> is always called with
  \<open>capture_output=True, text=True\<close>; with \<open>check=True\<close> a non-zero return code raises
  \<open>CalledProcessError\<close>, and a missing program raises \<open>FileNotFoundError\<close> either way.
  An argument that holds the character NUL cannot be passed to a process: for such an
  argument vector \<open>subprocess.run\<close> raises \<open>ValueError\<close> before any process is started
  (every other character below 256 can be encoded and passed).
\<close>

datatype proc_outcome =
    Completed (returncode: int) (stdout: string) (stderr: string)
  | NotFound

type_synonym system = "string list \<Rightarrow> proc_outcome"

definition subprocess_run :: "system \<Rightarrow> string list \<Rightarrow> bool \<Rightarrow> exn + proc_outcome" where
  "subprocess_run sys argv check =
     (if \<exists>arg\<in>set argv. CHR 0x00 \<in> set arg then Inl (ValueError ''embedded null byte'')
      else case sys argv of
             NotFound \<Rightarrow> Inl FileNotFoundError
           | Completed rc out err \<Rightarrow>
               if check \<and> rc \<noteq> 0 then Inl (CalledProcessError rc out err)
               else Inr (Completed rc out err))"

section \<open>git\_utils.py\<close>

subsection \<open>get\_staged\_diff\<close>

definition truncation_marker :: string where
  "truncation_marker = CHR 0x0A # ''[... diff truncated due to size ...]''"

text \<open>
  The condition \<open>truncate_length and len(diff) > truncate_length\<close>: \<open>None\<close> and \<open>0\<close> are
  false in Python, every other integer is true.
\<close>

definition get_staged_diff :: "system \<Rightarrow> int option \<Rightarrow> exn + (string \<times> bool)" where
  "get_staged_diff sys truncate_length =
     (case subprocess_run sys [''git'', ''diff'', ''--cached''] True of
        Inl (CalledProcessError rc out err) \<Rightarrow>
          Inl (RuntimeError (''Failed to get staged diff: '' @ err))
      | Inl e \<Rightarrow> Inl e
      | Inr result \<Rightarrow>
          (let diff = stdout result in
           case truncate_length of
             None \<Rightarrow> Inr (diff, False)
           | Some t \<Rightarrow>
               if t \<noteq> 0 \<and> int (length diff) > t
               then Inr (py_slice_to diff t @ truncation_marker, True)
               else Inr (diff, False)))"

subsection \<open>is\_git\_repository, has\_staged\_changes, get\_staged\_files\<close>

text \<open>
  \<open>is_git_repository\<close> runs with \<open>check=False\<close> and catches \<open>FileNotFoundError\<close>;
  \<open>has_staged_changes\<close> and \<open>get_staged_files\<close> run with \<open>check=True\<close> and catch
  \<open>CalledProcessError\<close> only, so any other exception leaves them.
\<close>

definition is_git_repository :: "system \<Rightarrow> exn + bool" where
  "is_git_repository sys =
     (case subprocess_run sys [''git'', ''rev-parse'', ''--is-inside-work-tree''] False of
        Inl FileNotFoundError \<Rightarrow> Inr False
      | Inl e \<Rightarrow> Inl e
      | Inr result \<Rightarrow> Inr (returncode result = 0 \<and> py_strip (stdout result) = ''true''))"

definition has_staged_changes :: "system \<Rightarrow> exn + bool" where
  "has_staged_changes sys =
     (case subprocess_run sys [''git'', ''diff'', ''--cached'', ''--name-only''] True of
        Inl (CalledProcessError rc out err) \<Rightarrow> Inr False
      | Inl e \<Rightarrow> Inl e
      | Inr result \<Rightarrow> Inr (py_strip (stdout result) \<noteq> []))"

definition get_staged_files :: "system \<Rightarrow> exn + string list" where
  "get_staged_files sys =
     (case subprocess_run sys [''git'', ''diff'', ''--cached'', ''--name-only''] True of
        Inl (CalledProcessError rc out err) \<Rightarrow>
          Inl (RuntimeError (''Failed to get staged files: '' @ err))
      | Inl e \<Rightarrow> Inl e
      | Inr result \<Rightarrow> Inr (filter (\<lambda>line. line \<noteq> []) (py_splitlines (stdout result))))"

subsection \<open>commit\_changes\<close>

text \<open>
  The function prints on the failure path, so it returns the lines it printed beside its
  result. The message goes through \<open>replace\<close>, which puts a backslash (the character
  0x5C) before each double quote (the character 0x22).
\<close>

definition commit_changes :: "system \<Rightarrow> string \<Rightarrow> string list \<times> (exn + bool)" where
  "commit_changes sys message =
     (let safe_message = py_replace [CHR 0x22] [CHR 0x5C, CHR 0x22] message
      in case subprocess_run sys [''git'', ''commit'', ''-m'', safe_message] True of
           Inl (CalledProcessError rc out err) \<Rightarrow> ([''Commit failed: '' @ err], Inr False)
         | Inl e \<Rightarrow> ([], Inl e)
         | Inr result \<Rightarrow> ([], Inr (returncode result = 0)))"

section \<open>config\_utils.py\<close>

subsection \<open>Values and the store\<close>

text \<open>
  The values a YAML document and the configuration hold. A float is given by the literal
  Python prints for it; a dictionary is the list of its items in insertion order, and
  \<open>AList.update\<close> is the assignment \<open>d[k] = v\<close> (an existing key keeps its place, a new
  one goes to the end). Keys are strings.
\<close>

datatype pyval =
    VNone
  | VBool bool
  | VInt int
  | VFloat string
  | VStr string
  | VList "pyval list"
  | VDict "(string \<times> pyval) list"

type_synonym pydict = "(string \<times> pyval) list"

text \<open>Truth value of a value (\<open>if config:\<close>, \<open>api_key or ""\<close>) and the name of its type.\<close>

fun py_truthy :: "pyval \<Rightarrow> bool" where
  "py_truthy VNone = False"
| "py_truthy (VBool b) = b"
| "py_truthy (VInt i) = (i \<noteq> 0)"
| "py_truthy (VFloat r) = (r \<noteq> ''0.0'' \<and> r \<noteq> ''-0.0'')"
| "py_truthy (VStr s) = (s \<noteq> [])"
| "py_truthy (VList vs) = (vs \<noteq> [])"
| "py_truthy (VDict kvs) = (kvs \<noteq> [])"

fun py_type_name :: "pyval \<Rightarrow> string" where
  "py_type_name VNone = ''NoneType''"
| "py_type_name (VBool b) = ''bool''"
| "py_type_name (VInt i) = ''int''"
| "py_type_name (VFloat r) = ''float''"
| "py_type_name (VStr s) = ''str''"
| "py_type_name (VList vs) = ''list''"
| "py_type_name (VDict kvs) = ''dict''"

text \<open>\<open>v[k]\<close> for a string key: only a dictionary can be subscripted by a string.\<close>

fun py_getitem :: "pyval \<Rightarrow> string \<Rightarrow> exn + pyval" where
  "py_getitem (VDict d) k = (case map_of d k of Some v \<Rightarrow> Inr v | None \<Rightarrow> Inl (KeyError k))"
| "py_getitem v k = Inl TypeError"

text \<open>
  \<open>DEFAULT_CONFIG.copy()\<close> is a shallow copy: the new dictionary refers to the same
  objects as \<open>DEFAULT_CONFIG\<close> does. So the objects that the keys of \<open>DEFAULT_CONFIG\<close>
  refer to live in a store, at addresses, and a dictionary that refers to them is a list
  of keys with addresses (a \<open>refdict\<close>). A parsed document is reachable through the local
  variable \<open>config\<close> only, so it is a value. The state of the process holds the store,
  the next free address, the module's global \<open>DEFAULT_CONFIG\<close>, the configuration file
  and what has been printed.

  The configuration file is absent, or reading it raises (with the text of the
  exception), or it holds a document, given as the value \<open>yaml.safe_load\<close> returns for it.
\<close>

type_synonym addr = nat

type_synonym refdict = "(string \<times> addr) list"

datatype file_state = Absent | Unloadable string | Document pyval

record pystate =
  store :: "addr \<Rightarrow> pyval"
  fresh :: addr
  DEFAULT_CONFIG :: refdict
  config_file :: file_state
  printed :: "string list"

text \<open>The items of a dictionary of references, and the dictionary as a value.\<close>

definition ref_items :: "pystate \<Rightarrow> refdict \<Rightarrow> pydict" where
  "ref_items s d = map (\<lambda>ka. (fst ka, store s (snd ka))) d"

definition deref :: "pystate \<Rightarrow> refdict \<Rightarrow> pyval" where
  "deref s d = VDict (ref_items s d)"

text \<open>The module as the source initialises it (lines 12 to 22).\<close>

definition default_ai :: pydict where
  "default_ai =
     [(''provider'', VStr ''openai''),
      (''model'', VStr ''gpt-3.5-turbo''),
      (''temperature'', VFloat ''0.7''),
      (''max_tokens'', VInt 100),
      (''api_key'', VStr '''')]"

definition default_config_value :: pydict where
  "default_config_value =
     [(''ai'', VDict default_ai),
      (''commit_style'', VStr ''conventional''),
      (''diff_truncation_limit'', VInt 4000)]"

definition initial_state :: "file_state \<Rightarrow> pystate" where
  "initial_state f =
     \<lparr> store = (\<lambda>a. VNone)(0 := VDict default_ai, 1 := VStr ''conventional'', 2 := VInt 4000),
       fresh = 3,
       DEFAULT_CONFIG = [(''ai'', 0), (''commit_style'', 1), (''diff_truncation_limit'', 2)],
       config_file = f,
       printed = [] \<rparr>"

subsection \<open>create\_default\_config\<close>

text \<open>
  \<open>yaml.dump\<close> writes the keys of every mapping in sorted order, and \<open>yaml.safe_load\<close>
  reads the document back with the keys in that order: \<open>yaml_dump_load v\<close> is the value
  read back from the dump of \<open>v\<close>.
\<close>

fun yaml_dump_load :: "pyval \<Rightarrow> pyval" where
  "yaml_dump_load (VDict kvs) =
     VDict (sort_key fst (map (\<lambda>kv. (fst kv, yaml_dump_load (snd kv))) kvs))"
| "yaml_dump_load (VList vs) = VList (map yaml_dump_load vs)"
| "yaml_dump_load v = v"

definition create_default_config :: "pystate \<Rightarrow> pystate" where
  "create_default_config s =
     s\<lparr>config_file := Document (yaml_dump_load (deref s (DEFAULT_CONFIG s)))\<rparr>"

subsection \<open>\_merge\_dicts\<close>

text \<open>
  The loop of \<open>_merge_dicts(base, overlay)\<close> over the items of \<open>overlay\<close>, on values:
  where the key is in \<open>base\<close> and both values are dictionaries it merges into
  \<open>base[k]\<close>, otherwise it assigns \<open>base[k] = v\<close>. The result is \<open>base\<close> after the call.
\<close>

fun merge_dicts :: "pydict \<Rightarrow> pydict \<Rightarrow> pydict" where
  "merge_dicts base [] = base"
| "merge_dicts base ((k, VDict ov) # rest) =
     merge_dicts
       (case map_of base k of
          Some (VDict b) \<Rightarrow> AList.update k (VDict (merge_dicts b ov)) base
        | _ \<Rightarrow> AList.update k (VDict ov) base)
       rest"
| "merge_dicts base ((k, v) # rest) = merge_dicts (AList.update k v base) rest"

text \<open>
  The same loop where \<open>base\<close> is a dictionary of references, as \<open>merged_config\<close> is in
  \<open>load_config\<close>. Merging into \<open>base[k]\<close> changes the object at its address in place,
  for every dictionary that refers to it; the assignment \<open>base[k] = v\<close> makes the key
  of \<open>base\<close> refer to the object \<open>v\<close>, which gets the next free address.
\<close>

definition assign_item :: "pystate \<Rightarrow> refdict \<Rightarrow> string \<Rightarrow> pyval \<Rightarrow> pystate \<times> refdict" where
  "assign_item s base k v =
     (s\<lparr>store := (store s)(fresh s := v), fresh := Suc (fresh s)\<rparr>,
      AList.update k (fresh s) base)"

fun merge_dicts_refs :: "pystate \<Rightarrow> refdict \<Rightarrow> pydict \<Rightarrow> pystate \<times> refdict" where
  "merge_dicts_refs s base [] = (s, base)"
| "merge_dicts_refs s base ((k, v) # rest) =
     (case (map_of base k, v) of
        (Some a, VDict ov) \<Rightarrow>
          (case store s a of
             VDict b \<Rightarrow>
               merge_dicts_refs (s\<lparr>store := (store s)(a := VDict (merge_dicts b ov))\<rparr>) base rest
           | _ \<Rightarrow>
               (case assign_item s base k v of (s', base') \<Rightarrow> merge_dicts_refs s' base' rest))
      | _ \<Rightarrow> (case assign_item s base k v of (s', base') \<Rightarrow> merge_dicts_refs s' base' rest))"

subsection \<open>load\_config\<close>

text \<open>
  The path of the configuration file is a parameter: it only appears in the message
  printed when the file is created. What \<open>except Exception\<close> catches here is the exception
  of reading the file and the \<open>AttributeError\<close> of \<open>overlay.items()\<close> when the document is
  true but not a mapping; both paths return \<open>DEFAULT_CONFIG\<close> itself.
\<close>

definition load_config :: "string \<Rightarrow> pystate \<Rightarrow> pystate \<times> refdict" where
  "load_config config_path s =
     (let s1 = (if config_file s = Absent
                then (create_default_config s)
                       \<lparr>printed := printed s @
                          [''Created default configuration at '' @ config_path,
                           ''Please update it with your AI provider API key.'']\<rparr>
                else s)
      in case config_file s1 of
           Absent \<Rightarrow>
             (s1\<lparr>printed := printed s1 @
                   [''Error loading configuration: [Errno 2] No such file or directory: ''
                      @ [CHR 0x27] @ config_path @ [CHR 0x27],
                    ''Using default configuration.'']\<rparr>,
              DEFAULT_CONFIG s1)
         | Unloadable msg \<Rightarrow>
             (s1\<lparr>printed := printed s1 @
                   [''Error loading configuration: '' @ msg, ''Using default configuration.'']\<rparr>,
              DEFAULT_CONFIG s1)
         | Document config \<Rightarrow>
             (let merged_config = DEFAULT_CONFIG s1
              in if py_truthy config
                 then (case config of
                         VDict overlay \<Rightarrow> merge_dicts_refs s1 merged_config overlay
                       | _ \<Rightarrow>
                           (s1\<lparr>printed := printed s1 @
                                 [''Error loading configuration: '' @ [CHR 0x27]
                                    @ py_type_name config @ [CHR 0x27]
                                    @ '' object has no attribute '' @ [CHR 0x27] @ ''items''
                                    @ [CHR 0x27],
                                  ''Using default configuration.'']\<rparr>,
                            DEFAULT_CONFIG s1))
                 else (s1, merged_config)))"

subsection \<open>get\_api\_key\<close>

text \<open>\<open>config[k]\<close> and \<open>config[k][j]\<close> for the dictionary that \<open>load_config\<close> returned.\<close>

definition config_getitem :: "pystate \<Rightarrow> refdict \<Rightarrow> string \<Rightarrow> exn + pyval" where
  "config_getitem s config k =
     (case map_of config k of Some a \<Rightarrow> Inr (store s a) | None \<Rightarrow> Inl (KeyError k))"

definition config_getitem2 :: "pystate \<Rightarrow> refdict \<Rightarrow> string \<Rightarrow> string \<Rightarrow> exn + pyval" where
  "config_getitem2 s config k j =
     (case config_getitem s config k of Inl e \<Rightarrow> Inl e | Inr v \<Rightarrow> py_getitem v j)"

text \<open>The environment is \<open>os.environ\<close>: a partial map from names to strings.\<close>

definition get_api_key ::
  "string \<Rightarrow> (string \<Rightarrow> string option) \<Rightarrow> pystate \<Rightarrow> pystate \<times> (exn + pyval)" where
  "get_api_key config_path environ s =
     (case load_config config_path s of
        (s', config) \<Rightarrow>
          (case environ ''COMMY_API_KEY'' of
             Some api_key \<Rightarrow>
               if api_key \<noteq> [] then (s', Inr (VStr api_key))
               else (s', config_getitem2 s' config ''ai'' ''api_key'')
           | None \<Rightarrow> (s', config_getitem2 s' config ''ai'' ''api_key'')))"

section \<open>ai\_utils.py\<close>

text \<open>\<open>str.lower\<close> for the characters below 256: the letters A to Z and 0xC0 to 0xDE (but 0xD7).\<close>

definition py_lower_char :: "char \<Rightarrow> char" where
  "py_lower_char c =
     (let n = (of_char c :: nat)
      in if (65 \<le> n \<and> n \<le> 90) \<or> (192 \<le> n \<and> n \<le> 222 \<and> n \<noteq> 215)
         then char_of (n + 32) else c)"

definition py_lower :: "string \<Rightarrow> string" where
  "py_lower s = map py_lower_char s"

text \<open>
  The one provider class and its constructor, which stores \<open>api_key or ""\<close> and the other
  arguments as they are.
\<close>

record openai_provider =
  api_key :: pyval
  model :: pyval
  temperature :: pyval
  max_tokens :: pyval
  api_url :: string

datatype ai_provider = OpenAIProvider openai_provider

definition OpenAIProvider_init :: "pyval \<Rightarrow> pyval \<Rightarrow> pyval \<Rightarrow> pyval \<Rightarrow> ai_provider" where
  "OpenAIProvider_init k m t n =
     OpenAIProvider
       \<lparr> api_key = (if py_truthy k then k else VStr ''''),
         model = m,
         temperature = t,
         max_tokens = n,
         api_url = ''https://api.openai.com/v1/chat/completions'' \<rparr>"

text \<open>
  \<open>get_ai_provider\<close> loads the configuration, resolves the key (which loads the
  configuration again), and reads \<open>config["ai"]\<close> of the first load afterwards. A
  provider that is not a string has no \<open>lower\<close>.
\<close>

definition get_ai_provider ::
  "string \<Rightarrow> (string \<Rightarrow> string option) \<Rightarrow> pystate \<Rightarrow> pystate \<times> (exn + ai_provider)" where
  "get_ai_provider config_path environ s =
     (case load_config config_path s of
        (s1, config) \<Rightarrow>
          (case get_api_key config_path environ s1 of
             (s2, Inl e) \<Rightarrow> (s2, Inl e)
           | (s2, Inr key) \<Rightarrow>
               (case config_getitem2 s2 config ''ai'' ''provider'' of
                  Inl e \<Rightarrow> (s2, Inl e)
                | Inr (VStr name) \<Rightarrow>
                    (let provider_name = py_lower name
                     in if provider_name = ''openai''
                        then (case config_getitem2 s2 config ''ai'' ''model'' of
                                Inl e \<Rightarrow> (s2, Inl e)
                              | Inr m \<Rightarrow>
                                  (case config_getitem2 s2 config ''ai'' ''temperature'' of
                                     Inl e \<Rightarrow> (s2, Inl e)
                                   | Inr t \<Rightarrow>
                                       (case config_getitem2 s2 config ''ai'' ''max_tokens'' of
                                          Inl e \<Rightarrow> (s2, Inl e)
                                        | Inr n \<Rightarrow> (s2, Inr (OpenAIProvider_init key m t n)))))
                        else (s2, Inl (ValueError (''Unsupported AI provider: '' @ provider_name))))
                | Inr v \<Rightarrow> (s2, Inl AttributeError))))"

section \<open>main.py\<close>

text \<open>
  The command \<open>generate\<close>. What it does is recorded as a list of events: what the console
  shows (a string, a string followed by the text of an exception, a panel, or the panel
  with the title \<open>Git Diff\<close>), each line that \<open>commit_changes\<close> writes with \<open>print\<close>, each
  prompt, and each call of \<open>generate_commit_message\<close> and of \<open>commit_changes\<close> with its
  argument. The status line shown while a message is generated has a fixed text and is
  not recorded.

  Its parameters are the console, the operating system of the git functions, the
  truncation limit it reads from the configuration, the result of each call of
  \<open>generate_commit_message\<close> (by the number of the call, from 0) and the strings
  \<open>typer.prompt\<close> returns, in order; with none left, the prompt raises \<open>Abort\<close>.

  The console is the library behind \<open>console.print\<close>, which reads its argument as markup
  and raises instead of showing it when the markup is wrong (\<open>MarkupError\<close>, for instance
  for a closing tag that closes nothing): it is a function from what is to be shown to
  the exception raised, if any.
\<close>

datatype event =
    Print string
  | PrintExn string exn
  | Panel string
  | TitledPanel string string
  | Stdout string
  | Prompt
  | CallGenerate string
  | CallCommit string

datatype exit_status = Exit int | Returned | Raised exn

type_synonym console = "event \<Rightarrow> exn option"

fun py_join :: "string \<Rightarrow> string list \<Rightarrow> string" where
  "py_join sep [] = []"
| "py_join sep [x] = x"
| "py_join sep (x # y # zs) = x @ sep @ py_join sep (y # zs)"

text \<open>
  \<open>emit\<close> puts events before what a continuation does. \<open>console_prints\<close> is a sequence of
  calls of \<open>console.print\<close>: it stops at the first that raises, and gives what was shown
  and the exception. \<open>printing\<close> is such a sequence outside any \<open>try\<close>, followed by a
  continuation: an exception ends the command.
\<close>

definition emit :: "event list \<Rightarrow> event list \<times> 'a \<Rightarrow> event list \<times> 'a" where
  "emit evs r = (evs @ fst r, snd r)"

fun console_prints :: "console \<Rightarrow> event list \<Rightarrow> event list \<times> exn option" where
  "console_prints console [] = ([], None)"
| "console_prints console (ev # evs) =
     (case console ev of
        Some e \<Rightarrow> ([], Some e)
      | None \<Rightarrow> emit [ev] (console_prints console evs))"

definition printing ::
  "console \<Rightarrow> event list \<Rightarrow> event list \<times> exit_status \<Rightarrow> event list \<times> exit_status" where
  "printing console evs rest =
     (case console_prints console evs of
        (shown, Some e) \<Rightarrow> (shown, Raised e)
      | (shown, None) \<Rightarrow> emit shown rest)"

text \<open>
  The \<open>try\<close> block of lines 66 to 78 with its handler: the diff is fetched, shown in a
  panel when \<open>verbose\<close> is set, and the warning is shown when it was truncated. An
  exception of any of these is reported and ends the command with status 1.
\<close>

definition show_diff ::
  "console \<Rightarrow> bool \<Rightarrow> system \<Rightarrow> int option \<Rightarrow> event list \<times> (exit_status + string)" where
  "show_diff console verbose sys truncate_length =
     (let attempt =
        (case get_staged_diff sys truncate_length of
           Inl e \<Rightarrow> ([], Some e, [])
         | Inr (diff, is_truncated) \<Rightarrow>
             (case console_prints console
                     ((if verbose then [TitledPanel ''Git Diff'' diff] else []) @
                      (if is_truncated
                       then [Print ''[bold yellow]Warning:[/bold yellow] Diff was truncated due to size.'']
                       else [])) of
                (shown, r) \<Rightarrow> (shown, r, diff)))
      in case attempt of
           (shown, None, diff) \<Rightarrow> (shown, Inr diff)
         | (shown, Some e, diff) \<Rightarrow>
             (case printing console [PrintExn ''[bold red]Error:[/bold red] '' e] ([], Exit 1) of
                (ev, st) \<Rightarrow> (shown @ ev, Inl st)))"

text \<open>
  The \<open>try\<close> block of lines 113 to 121 with its handler: the message is generated again and
  shown under its heading. An exception of the generation or of the console is reported
  and ends the command with status 1; an exception of the report itself leaves the
  command.
\<close>

definition regenerate ::
  "console \<Rightarrow> (nat \<Rightarrow> exn + string) \<Rightarrow> string \<Rightarrow> nat \<Rightarrow> event list \<times> (exit_status + string)" where
  "regenerate console gen diff n =
     (let attempt =
        (case gen n of
           Inl e \<Rightarrow> ([], Some e, [])
         | Inr m \<Rightarrow>
             (case console_prints console
                     [Print (CHR 0x0A # ''[bold]Regenerated commit message:[/bold]''), Panel m] of
                (shown, r) \<Rightarrow> (shown, r, m)))
      in case attempt of
           (shown, None, m) \<Rightarrow> (CallGenerate diff # shown, Inr m)
         | (shown, Some e, m) \<Rightarrow>
             (case printing console
                     [PrintExn ''[bold red]Error:[/bold red] Failed to regenerate commit message: '' e]
                     ([], Exit 1) of
                (ev, st) \<Rightarrow> (CallGenerate diff # shown @ ev, Inl st)))"

text \<open>The loop \<open>while True\<close> of lines 95 to 128, with the current message and the number of
  generation calls made so far.\<close>

fun review_loop ::
  "console \<Rightarrow> system \<Rightarrow> (nat \<Rightarrow> exn + string) \<Rightarrow> string \<Rightarrow> string \<Rightarrow> nat \<Rightarrow> string list
     \<Rightarrow> event list \<times> exit_status" where
  "review_loop console sys gen diff commit_message n [] = ([Prompt], Raised Abort)"
| "review_loop console sys gen diff commit_message n (inp # inputs) =
     emit [Prompt]
       (let choice = py_lower inp
        in if choice \<in> set [''y'', ''yes'']
           then (case commit_changes sys commit_message of
                   (out, Inr ok) \<Rightarrow>
                     emit (CallCommit commit_message # map Stdout out)
                       (printing console
                          [if ok then Print ''[bold green]Commit successful![/bold green]''
                           else Print ''[bold red]Commit failed.[/bold red]'']
                          ([], Returned))
                 | (out, Inl e) \<Rightarrow> (CallCommit commit_message # map Stdout out, Raised e))
           else if choice \<in> set [''r'', ''regenerate'']
           then (case regenerate console gen diff n of
                   (ev, Inr m) \<Rightarrow> emit ev (review_loop console sys gen diff m (Suc n) inputs)
                 | (ev, Inl st) \<Rightarrow> (ev, st))
           else if choice \<in> set [''n'', ''no'']
           then printing console
                  [Print ''[bold yellow]Aborted. No changes were committed.[/bold yellow]'']
                  ([], Returned)
           else printing console
                  [Print ''[bold red]Invalid choice. Please try again.[/bold red]'']
                  (review_loop console sys gen diff commit_message n inputs))"

definition generate ::
  "console \<Rightarrow> bool \<Rightarrow> system \<Rightarrow> int option \<Rightarrow> (nat \<Rightarrow> exn + string) \<Rightarrow> string list
     \<Rightarrow> event list \<times> exit_status" where
  "generate console verbose sys truncate_length gen inputs =
     (case is_git_repository sys of
        Inl e \<Rightarrow> ([], Raised e)
      | Inr False \<Rightarrow>
          printing console
            [Print ''[bold red]Error:[/bold red] Current directory is not a Git repository.'']
            ([], Exit 1)
      | Inr True \<Rightarrow>
     (case has_staged_changes sys of
        Inl e \<Rightarrow> ([], Raised e)
      | Inr False \<Rightarrow>
          printing console
            [Print ''[bold yellow]Warning:[/bold yellow] No staged changes to commit.'']
            ([], Exit 0)
      | Inr True \<Rightarrow>
     (case get_staged_files sys of
        Inl e \<Rightarrow> ([], Raised e)
      | Inr staged_files \<Rightarrow>
     printing console
       [Print (''[bold green]Staged files:[/bold green] '' @ py_join '', '' staged_files)]
     (case show_diff console verbose sys truncate_length of
        (ev, Inl st) \<Rightarrow> (ev, st)
      | (ev, Inr diff) \<Rightarrow>
     emit (ev @ [CallGenerate diff])
     (case gen 0 of
        Inl e \<Rightarrow>
          printing console
            [PrintExn ''[bold red]Error:[/bold red] Failed to generate commit message: '' e]
            ([], Exit 1)
      | Inr commit_message \<Rightarrow>
          printing console
            [Print (CHR 0x0A # ''[bold]Generated commit message:[/bold]''), Panel commit_message]
            (review_loop console sys gen diff commit_message 1 inputs))))))"

section \<open>Notions used in the statements\<close>

text \<open>
  A dictionary of references is separated in a state when no two of its keys refer to the
  same address and every address it refers to is allocated. The defaults are intact when
  \<open>DEFAULT_CONFIG\<close> is separated and has, as a value, the items the source gives it.
\<close>

definition separated :: "pystate \<Rightarrow> refdict \<Rightarrow> bool" where
  "separated s d \<longleftrightarrow> distinct (map snd d) \<and> (\<forall>a\<in>snd ` set d. a < fresh s)"

definition defaults_intact :: "pystate \<Rightarrow> bool" where
  "defaults_intact s \<longleftrightarrow>
     separated s (DEFAULT_CONFIG s) \<and> ref_items s (DEFAULT_CONFIG s) = default_config_value"

text \<open>The value at a path of keys, and the paths of the seven settings.\<close>

fun lookup_path :: "pyval \<Rightarrow> string list \<Rightarrow> pyval option" where
  "lookup_path v [] = Some v"
| "lookup_path (VDict d) (k # ks) =
     (case map_of d k of Some v \<Rightarrow> lookup_path v ks | None \<Rightarrow> None)"
| "lookup_path v (k # ks) = None"


text \<open>
  A parsed mapping is a configuration overlay when its keys are distinct, as those of a
  Python dictionary are, and its \<open>ai\<close> entry, if it has one, is a mapping with distinct
  keys. It may have keys beyond the recognised ones.
\<close>

definition config_overlay :: "pydict \<Rightarrow> bool" where
  "config_overlay ov \<longleftrightarrow>
     distinct (map fst ov) \<and>
     (case map_of ov ''ai'' of
        None \<Rightarrow> True
      | Some (VDict a) \<Rightarrow> distinct (map fst a)
      | Some v \<Rightarrow> False)"

text \<open>What one item of the overlay leaves at its key in the base.\<close>

fun merged_value :: "pyval option \<Rightarrow> pyval \<Rightarrow> pyval" where
  "merged_value (Some (VDict b)) (VDict ov) = VDict (merge_dicts b ov)"
| "merged_value x v = v"

fun is_dict :: "pyval \<Rightarrow> bool" where
  "is_dict (VDict d) = True"
| "is_dict v = False"

text \<open>
  The \<open>ai\<close> section of an overlay (empty when there is none, or when it is not a mapping),
  and the states in which \<open>DEFAULT_CONFIG\<close> is separated and holds a given \<open>ai\<close> section
  beside the two top-level settings of the source.
\<close>

definition overlay_ai :: "pydict \<Rightarrow> pydict" where
  "overlay_ai ov = (case map_of ov ''ai'' of Some (VDict a) \<Rightarrow> a | _ \<Rightarrow> [])"

definition defaults_hold :: "pystate \<Rightarrow> pydict \<Rightarrow> bool" where
  "defaults_hold s b \<longleftrightarrow>
     separated s (DEFAULT_CONFIG s) \<and>
     ref_items s (DEFAULT_CONFIG s) =
       [(''ai'', VDict b), (''commit_style'', VStr ''conventional''),
        (''diff_truncation_limit'', VInt 4000)]"

text \<open>
  The document that a dump of the source's \<open>DEFAULT_CONFIG\<close> reads back as (keys sorted).
\<close>

definition default_document :: pyval where
  "default_document =
     VDict [(''ai'', VDict [(''api_key'', VStr []),
                            (''max_tokens'', VInt 100),
                            (''model'', VStr ''gpt-3.5-turbo''),
                            (''provider'', VStr ''openai''),
                            (''temperature'', VFloat ''0.7'')]),
            (''commit_style'', VStr ''conventional''),
            (''diff_truncation_limit'', VInt 4000)]"

text \<open>The events that are calls of \<open>generate_commit_message\<close> or of \<open>commit_changes\<close>.\<close>

fun is_call :: "event \<Rightarrow> bool" where
  "is_call (CallGenerate d) = True"
| "is_call (CallCommit m) = True"
| "is_call e = False"

text \<open>
  The setting of the \<open>ai\<close> section that a configuration overlay gives over the source's
  defaults, and the key that the environment gives over that setting.
\<close>

definition ai_setting :: "pydict \<Rightarrow> string \<Rightarrow> pyval" where
  "ai_setting ov x =
     (case lookup_path (VDict ov) [''ai'', x] of
        Some v \<Rightarrow> v
      | None \<Rightarrow> (case map_of default_ai x of Some d \<Rightarrow> d | None \<Rightarrow> VNone))"

definition resolved_api_key :: "(string \<Rightarrow> string option) \<Rightarrow> pydict \<Rightarrow> pyval" where
  "resolved_api_key environ ov =
     (case environ ''COMMY_API_KEY'' of
        Some k \<Rightarrow> if k \<noteq> [] then VStr k else ai_setting ov ''api_key''
      | None \<Rightarrow> ai_setting ov ''api_key'')"

section \<open>Properties of get\_staged\_diff\<close>

lemma subprocess_run_ok:
  "\<forall>arg\<in>set argv. CHR 0x00 \<notin> set arg \<Longrightarrow> sys argv = Completed 0 out err \<Longrightarrow>
   subprocess_run sys argv c = Inr (Completed 0 out err)"
  by (simp add: subprocess_run_def)

text \<open>
  C1. For a diff of length \<open>L\<close> that the staged-diff command printed and a positive limit
  \<open>T\<close>: when \<open>L \<le> T\<close> the diff comes back as it is with the flag false; when \<open>L > T\<close> the
  result is the first \<open>T\<close> characters of the diff followed by the fixed marker, with the
  flag true, and its length is \<open>T\<close> plus the length of the marker.
\<close>

theorem get_staged_diff_truncation:
  assumes "sys [''git'', ''diff'', ''--cached''] = Completed 0 diff err"
    and "0 < T"
  shows "(int (length diff) \<le> T \<longrightarrow> get_staged_diff sys (Some T) = Inr (diff, False))
       \<and> (int (length diff) > T \<longrightarrow>
           get_staged_diff sys (Some T) = Inr (take (nat T) diff @ truncation_marker, True)
           \<and> length (take (nat T) diff) = nat T
           \<and> int (length (fst (projr (get_staged_diff sys (Some T)))))
               = T + int (length truncation_marker))"
  using assms
  by (auto simp: get_staged_diff_def subprocess_run_ok py_slice_to_def)

theorem get_staged_diff_truncation_witness:
  "get_staged_diff (\<lambda>argv. Completed 0 ''abcdef'' '''') (Some 6) = Inr (''abcdef'', False)
   \<and> get_staged_diff (\<lambda>argv. Completed 0 ''abcdef'' '''') (Some 4)
       = Inr (''abcd'' @ truncation_marker, True)
   \<and> int (length (fst (projr (get_staged_diff (\<lambda>argv. Completed 0 ''abcdef'' '''') (Some 4)))))
       = 4 + int (length truncation_marker)"
  using get_staged_diff_truncation [of "\<lambda>argv. Completed 0 ''abcdef'' ''''" "''abcdef''" "''''" 6]
    get_staged_diff_truncation [of "\<lambda>argv. Completed 0 ''abcdef'' ''''" "''abcdef''" "''''" 4]
  by simp

text \<open>
  C10. With the limit \<open>None\<close> or \<open>0\<close> the diff that the command printed comes back whole,
  with the flag false, whatever its length: a limit of \<open>0\<close> switches truncation off.
\<close>

theorem get_staged_diff_no_limit:
  assumes "sys [''git'', ''diff'', ''--cached''] = Completed 0 diff err"
  shows "get_staged_diff sys None = Inr (diff, False)
       \<and> get_staged_diff sys (Some 0) = Inr (diff, False)"
  using assms
  by (simp add: get_staged_diff_def subprocess_run_ok)

theorem get_staged_diff_no_limit_witness:
  "get_staged_diff (\<lambda>argv. Completed 0 ''abcdef'' '''') None = Inr (''abcdef'', False)
   \<and> get_staged_diff (\<lambda>argv. Completed 0 ''abcdef'' '''') (Some 0) = Inr (''abcdef'', False)"
  using get_staged_diff_no_limit [of "\<lambda>argv. Completed 0 ''abcdef'' ''''" "''abcdef''" "''''"]
  by simp

section \<open>Properties of has\_staged\_changes\<close>

lemma py_strip_empty_iff: "py_strip s = [] \<longleftrightarrow> (\<forall>c\<in>set s. py_isspace c)"
proof
  assume "py_strip s = []"
  then have all: "\<forall>c\<in>set (dropWhile py_isspace s). py_isspace c"
    by (simp add: py_strip_def)
  have "dropWhile py_isspace s = []"
  proof (rule ccontr)
    assume ne: "dropWhile py_isspace s \<noteq> []"
    then have "\<not> py_isspace (hd (dropWhile py_isspace s))"
      by (rule hd_dropWhile)
    moreover from ne have "hd (dropWhile py_isspace s) \<in> set (dropWhile py_isspace s)"
      by simp
    ultimately show False using all by blast
  qed
  then show "\<forall>c\<in>set s. py_isspace c" by simp
next
  assume "\<forall>c\<in>set s. py_isspace c"
  then show "py_strip s = []" by (auto simp: py_strip_def dest: set_dropWhileD)
qed

lemma py_strip_nonempty_iff: "py_strip s \<noteq> [] \<longleftrightarrow> (\<exists>c\<in>set s. \<not> py_isspace c)"
  by (simp add: py_strip_empty_iff)

text \<open>
  C6, as the claim states it, fails where the version-control program is missing: the
  function catches \<open>CalledProcessError\<close> only, and \<open>FileNotFoundError\<close> leaves it.
\<close>

theorem has_staged_changes_binary_absent:
  "has_staged_changes (\<lambda>argv. NotFound) = Inl FileNotFoundError
   \<and> has_staged_changes (\<lambda>argv. NotFound) \<noteq> Inr False"
  by (simp add: has_staged_changes_def subprocess_run_def)

text \<open>
  C6, amended. When the listing command ran, \<open>has_staged_changes\<close> returns true if and
  only if it exited with status 0 and its output holds a character that is not white
  space, and false when it exited with another status; when the program is missing the
  \<open>FileNotFoundError\<close> propagates.
\<close>

theorem has_staged_changes_result:
  "has_staged_changes sys =
     (case sys [''git'', ''diff'', ''--cached'', ''--name-only''] of
        Completed rc out err \<Rightarrow> Inr (rc = 0 \<and> (\<exists>c\<in>set out. \<not> py_isspace c))
      | NotFound \<Rightarrow> Inl FileNotFoundError)"
  by (simp add: has_staged_changes_def subprocess_run_def py_strip_nonempty_iff
      split: proc_outcome.splits)

theorem has_staged_changes_result_witness:
  "has_staged_changes (\<lambda>argv. Completed 0 (''a.py'' @ [CHR 0x0A]) '''') = Inr True
   \<and> has_staged_changes (\<lambda>argv. Completed 0 [CHR 0x0A] '''') = Inr False
   \<and> has_staged_changes (\<lambda>argv. Completed 128 ''a.py'' ''fatal'') = Inr False"
  using has_staged_changes_result [of "\<lambda>argv. Completed 0 (''a.py'' @ [CHR 0x0A]) ''''"]
    has_staged_changes_result [of "\<lambda>argv. Completed 0 [CHR 0x0A] ''''"]
    has_staged_changes_result [of "\<lambda>argv. Completed 128 ''a.py'' ''fatal''"]
  by (simp add: py_isspace_def)

section \<open>Properties of commit\_changes\<close>

text \<open>Replacing a one-character pattern works character by character.\<close>

lemma py_replace_char:
  "py_replace [q] new s = concat (map (\<lambda>c. if c = q then new else [c]) s)"
proof (induction s)
  case Nil
  show ?case by (subst py_replace.simps) simp
next
  case (Cons c cs)
  show ?case
  proof (cases "c = q")
    case True
    then have "py_replace [q] new (c # cs) = new @ py_replace [q] new cs"
      by (subst py_replace.simps) simp
    with Cons True show ?thesis by simp
  next
    case False
    then have "py_replace [q] new (c # cs) = c # py_replace [q] new cs"
      by (subst py_replace.simps) simp
    with Cons False show ?thesis by simp
  qed
qed





section \<open>The store and the merge\<close>

text \<open>
  The loop over a dictionary of references does to the store what the loop on values does
  to the value of the dictionary, as long as the dictionary is separated.
\<close>

lemma map_of_ref_items: "map_of (ref_items s d) k = map_option (store s) (map_of d k)"
  by (induction d) (auto simp: ref_items_def)

lemma ref_items_store_other:
  "a \<notin> snd ` set d \<Longrightarrow> ref_items (s\<lparr>store := (store s)(a := v)\<rparr>) d = ref_items s d"
  by (induction d) (auto simp: ref_items_def)

lemma ref_items_fresh_irrelevant:
  "ref_items (s\<lparr>fresh := n\<rparr>) d = ref_items s d"
  by (simp add: ref_items_def)

lemma ref_items_update:
  "ref_items s (AList.update k a d) = AList.update k (store s a) (ref_items s d)"
  by (induction d) (auto simp: ref_items_def)

lemma ref_items_in_place:
  "distinct (map snd d) \<Longrightarrow> map_of d k = Some a \<Longrightarrow>
   ref_items (s\<lparr>store := (store s)(a := x)\<rparr>) d = AList.update k x (ref_items s d)"
proof (induction d)
  case Nil
  then show ?case by simp
next
  case (Cons p d)
  obtain k' a' where p: "p = (k', a')" by (cases p)
  show ?case
  proof (cases "k' = k")
    case True
    with Cons.prems p have "a' = a" and "a \<notin> snd ` set d" by auto
    with True p show ?thesis
      using ref_items_store_other [of a d s x] by (simp add: ref_items_def)
  next
    case False
    with Cons.prems p have m: "map_of d k = Some a" and d: "distinct (map snd d)" by auto
    from m have "a \<in> snd ` set d" by (metis map_of_SomeD image_eqI snd_conv)
    with Cons.prems p have "a' \<noteq> a" by auto
    with False p Cons.IH [OF d m] show ?thesis by (simp add: ref_items_def)
  qed
qed

lemma separated_in_place:
  "separated s d \<Longrightarrow> separated (s\<lparr>store := f\<rparr>) d"
  by (simp add: separated_def)

lemma set_update_subset: "snd ` set (AList.update k a d) \<subseteq> insert a (snd ` set d)"
  by (induction d) auto

lemma distinct_update_fresh:
  "distinct (map snd d) \<Longrightarrow> a \<notin> snd ` set d \<Longrightarrow> distinct (map snd (AList.update k a d))"
proof (induction d)
  case Nil
  then show ?case by simp
next
  case (Cons p d)
  then show ?case
    using set_update_subset [of k a d] by (cases p) auto
qed

lemma separated_assign:
  assumes "separated s d" and "assign_item s d k v = (s', d')"
  shows "separated s' d'"
proof -
  from assms(2) have s': "s' = s\<lparr>store := (store s)(fresh s := v), fresh := Suc (fresh s)\<rparr>"
    and d': "d' = AList.update k (fresh s) d" by (auto simp: assign_item_def)
  from assms(1) have "fresh s \<notin> snd ` set d" by (auto simp: separated_def)
  with assms(1) have "distinct (map snd d')" unfolding d' separated_def
    by (intro distinct_update_fresh) auto
  moreover have "\<forall>a\<in>snd ` set d'. a < fresh s'"
  proof
    fix a assume "a \<in> snd ` set d'"
    with set_update_subset [of k "fresh s" d] have "a = fresh s \<or> a \<in> snd ` set d"
      unfolding d' by blast
    moreover have "\<forall>a\<in>snd ` set d. a < fresh s" using assms(1) by (simp add: separated_def)
    ultimately have "a < Suc (fresh s)" by (auto simp: less_Suc_eq)
    then show "a < fresh s'" by (simp add: s')
  qed
  ultimately show ?thesis by (simp add: separated_def)
qed

lemma ref_items_assign:
  assumes "separated s d" and "assign_item s d k v = (s', d')"
  shows "ref_items s' d' = AList.update k v (ref_items s d)"
proof -
  from assms(2) have s': "s' = s\<lparr>store := (store s)(fresh s := v), fresh := Suc (fresh s)\<rparr>"
    and d': "d' = AList.update k (fresh s) d" by (auto simp: assign_item_def)
  from assms(1) have nin: "fresh s \<notin> snd ` set d" by (auto simp: separated_def)
  have "ref_items s' d' = AList.update k v (ref_items s' d)"
    unfolding d' by (simp add: ref_items_update s')
  also have "ref_items s' d = ref_items s d"
    unfolding s' using nin by (induction d) (auto simp: ref_items_def)
  finally show ?thesis .
qed

lemma merge_dicts_refs_refines:
  "separated s base \<Longrightarrow> merge_dicts_refs s base ov = (s', base') \<Longrightarrow>
   ref_items s' base' = merge_dicts (ref_items s base) ov \<and> separated s' base'"
proof (induction ov arbitrary: s base)
  case Nil
  then show ?case by simp
next
  case (Cons p rest)
  obtain k v where p: "p = (k, v)" by (cases p)
  show ?case
  proof (cases "\<exists>a ov b. map_of base k = Some a \<and> v = VDict ov \<and> store s a = VDict b")
    case True
    then obtain a ov b where m: "map_of base k = Some a" and v: "v = VDict ov"
      and b: "store s a = VDict b" by blast
    let ?s1 = "s\<lparr>store := (store s)(a := VDict (merge_dicts b ov))\<rparr>"
    from Cons.prems(2) p m v b have run: "merge_dicts_refs ?s1 base rest = (s', base')" by simp
    have sep: "separated ?s1 base" using Cons.prems(1) by (simp add: separated_def)
    have items: "ref_items ?s1 base = AList.update k (VDict (merge_dicts b ov)) (ref_items s base)"
      using Cons.prems(1) m by (intro ref_items_in_place) (auto simp: separated_def)
    from Cons.IH [OF sep run] items p v m b show ?thesis
      by (simp add: map_of_ref_items)
  next
    case False
    obtain s1 base1 where a: "assign_item s base k v = (s1, base1)" by (cases "assign_item s base k v")
    from False Cons.prems(2) p a have run: "merge_dicts_refs s1 base1 rest = (s', base')"
      by (auto split: option.splits pyval.splits)
    have sep: "separated s1 base1" using separated_assign [OF Cons.prems(1) a] .
    have items: "ref_items s1 base1 = AList.update k v (ref_items s base)"
      using ref_items_assign [OF Cons.prems(1) a] .
    have "merge_dicts (ref_items s base) ((k, v) # rest) = merge_dicts (AList.update k v (ref_items s base)) rest"
      using False by (cases v) (auto simp: map_of_ref_items split: option.splits pyval.splits)
    with Cons.IH [OF sep run] items p show ?thesis by simp
  qed
qed

lemma merge_dicts_step:
  "merge_dicts base ((k, v) # rest) =
     merge_dicts (AList.update k (merged_value (map_of base k) v) base) rest"
  by (cases v; cases "map_of base k"; simp split: pyval.splits)

lemma map_of_merge_dicts:
  "distinct (map fst ov) \<Longrightarrow>
   map_of (merge_dicts base ov) k =
     (case map_of ov k of
        None \<Rightarrow> map_of base k
      | Some v \<Rightarrow> Some (merged_value (map_of base k) v))"
proof (induction ov arbitrary: base)
  case Nil
  then show ?case by simp
next
  case (Cons p rest)
  obtain k' v where p: "p = (k', v)" by (cases p)
  from Cons.prems p have d: "distinct (map fst rest)" and nin: "k' \<notin> fst ` set rest" by auto
  let ?base1 = "AList.update k' (merged_value (map_of base k') v) base"
  have step: "merge_dicts base (p # rest) = merge_dicts ?base1 rest"
    unfolding p by (rule merge_dicts_step)
  show ?case
  proof (cases "k = k'")
    case True
    from nin have "map_of rest k' = None" by (simp add: map_of_eq_None_iff)
    with True p Cons.IH [OF d, of ?base1] step show ?thesis
      by (simp add: update_conv')
  next
    case False
    with p Cons.IH [OF d, of ?base1] step show ?thesis
      by (simp add: update_conv' split: option.splits)
  qed
qed

lemma merge_dicts_refs_frame:
  "merge_dicts_refs s base ov = (s', base') \<Longrightarrow>
   DEFAULT_CONFIG s' = DEFAULT_CONFIG s \<and> config_file s' = config_file s
   \<and> printed s' = printed s \<and> fresh s \<le> fresh s'"
proof (induction ov arbitrary: s base)
  case Nil
  then show ?case by simp
next
  case (Cons p rest)
  obtain k v where p: "p = (k, v)" by (cases p)
  show ?case
  proof (cases "\<exists>a ov b. map_of base k = Some a \<and> v = VDict ov \<and> store s a = VDict b")
    case True
    then obtain a ov b where m: "map_of base k = Some a" and v: "v = VDict ov"
      and b: "store s a = VDict b" by blast
    let ?s1 = "s\<lparr>store := (store s)(a := VDict (merge_dicts b ov))\<rparr>"
    from Cons.prems p m v b have run: "merge_dicts_refs ?s1 base rest = (s', base')" by simp
    from Cons.IH [OF run] show ?thesis by simp
  next
    case False
    obtain s1 base1 where a: "assign_item s base k v = (s1, base1)" by (cases "assign_item s base k v")
    from False Cons.prems p a have run: "merge_dicts_refs s1 base1 rest = (s', base')"
      by (auto split: option.splits pyval.splits)
    from a have "DEFAULT_CONFIG s1 = DEFAULT_CONFIG s" "config_file s1 = config_file s"
      "printed s1 = printed s" "fresh s1 = Suc (fresh s)"
      by (auto simp: assign_item_def)
    with Cons.IH [OF run] show ?thesis by simp
  qed
qed

lemma store_unreferenced:
  "separated s base \<Longrightarrow> a < fresh s \<Longrightarrow> a \<notin> snd ` set base \<Longrightarrow>
   merge_dicts_refs s base ov = (s', base') \<Longrightarrow> store s' a = store s a"
proof (induction ov arbitrary: s base)
  case Nil
  then show ?case by simp
next
  case (Cons p rest)
  obtain k v where p: "p = (k, v)" by (cases p)
  show ?case
  proof (cases "\<exists>a ov b. map_of base k = Some a \<and> v = VDict ov \<and> store s a = VDict b")
    case True
    then obtain a' ov b where m: "map_of base k = Some a'" and v: "v = VDict ov"
      and b: "store s a' = VDict b" by blast
    let ?s1 = "s\<lparr>store := (store s)(a' := VDict (merge_dicts b ov))\<rparr>"
    from Cons.prems(4) p m v b have run: "merge_dicts_refs ?s1 base rest = (s', base')" by simp
    have sep: "separated ?s1 base" using Cons.prems(1) by (simp add: separated_def)
    from m have "a' \<in> snd ` set base" by (metis map_of_SomeD image_eqI snd_conv)
    with Cons.prems(3) have ne: "a' \<noteq> a" by auto
    have "store s' a = store ?s1 a"
      using Cons.IH [OF sep _ Cons.prems(3) run] Cons.prems(2) by simp
    with ne show ?thesis by simp
  next
    case False
    obtain s1 base1 where a: "assign_item s base k v = (s1, base1)" by (cases "assign_item s base k v")
    from False Cons.prems(4) p a have run: "merge_dicts_refs s1 base1 rest = (s', base')"
      by (auto split: option.splits pyval.splits)
    have sep: "separated s1 base1" using separated_assign [OF Cons.prems(1) a] .
    from a have s1: "s1 = s\<lparr>store := (store s)(fresh s := v), fresh := Suc (fresh s)\<rparr>"
      and b1: "base1 = AList.update k (fresh s) base" by (auto simp: assign_item_def)
    have lt: "a < fresh s1" using Cons.prems(2) by (simp add: s1)
    have nin: "a \<notin> snd ` set base1"
      using set_update_subset [of k "fresh s" base] Cons.prems(2,3) unfolding b1 by auto
    have "store s' a = store s1 a" using Cons.IH [OF sep lt nin run] .
    with Cons.prems(2) show ?thesis by (simp add: s1)
  qed
qed

lemma update_removes_old:
  "distinct (map snd d) \<Longrightarrow> map_of d k = Some a \<Longrightarrow> a' \<noteq> a \<Longrightarrow>
   a \<notin> snd ` set (AList.update k a' d)"
proof (induction d)
  case Nil
  then show ?case by simp
next
  case (Cons p d)
  obtain k' b where p: "p = (k', b)" by (cases p)
  show ?case
  proof (cases "k' = k")
    case True
    with Cons.prems p show ?thesis by auto
  next
    case False
    with Cons.prems p have m: "map_of d k = Some a" and dd: "distinct (map snd d)" by auto
    from m have "a \<in> snd ` set d" by (metis map_of_SomeD image_eqI snd_conv)
    with Cons.prems(1) p have "b \<noteq> a" by auto
    with False p Cons.IH [OF dd m Cons.prems(3)] show ?thesis by auto
  qed
qed

lemma store_referenced:
  "separated s base \<Longrightarrow> distinct (map fst ov) \<Longrightarrow> map_of base k = Some a \<Longrightarrow>
   merge_dicts_refs s base ov = (s', base') \<Longrightarrow>
   store s' a =
     (case map_of ov k of
        Some (VDict o') \<Rightarrow> (case store s a of VDict b \<Rightarrow> VDict (merge_dicts b o') | _ \<Rightarrow> store s a)
      | _ \<Rightarrow> store s a)"
proof (induction ov arbitrary: s base)
  case Nil
  then show ?case by simp
next
  case (Cons p rest)
  obtain k' v where p: "p = (k', v)" by (cases p)
  from Cons.prems(2) p have d: "distinct (map fst rest)" and nin: "k' \<notin> fst ` set rest" by auto
  from Cons.prems(3) have a_in: "a \<in> snd ` set base" by (metis map_of_SomeD image_eqI snd_conv)
  from Cons.prems(1) a_in have a_lt: "a < fresh s" by (auto simp: separated_def)
  show ?case
  proof (cases "\<exists>a ov b. map_of base k' = Some a \<and> v = VDict ov \<and> store s a = VDict b")
    case True
    then obtain a' ov b where m: "map_of base k' = Some a'" and v: "v = VDict ov"
      and b: "store s a' = VDict b" by blast
    let ?s1 = "s\<lparr>store := (store s)(a' := VDict (merge_dicts b ov))\<rparr>"
    from Cons.prems(4) p m v b have run: "merge_dicts_refs ?s1 base rest = (s', base')" by simp
    have sep: "separated ?s1 base" using Cons.prems(1) by (simp add: separated_def)
    note IH = Cons.IH [OF sep d Cons.prems(3) run]
    show ?thesis
    proof (cases "k' = k")
      case True
      with m Cons.prems(3) have "a' = a" by simp
      moreover from nin True have "map_of rest k = None" by (simp add: map_of_eq_None_iff)
      ultimately show ?thesis using IH p v b True by simp
    next
      case False
      have "a' \<noteq> a"
      proof
        assume "a' = a"
        with m Cons.prems(3) have "map_of base k' = Some a" "map_of base k = Some a" by auto
        then have "(k', a) \<in> set base" "(k, a) \<in> set base" by (auto dest: map_of_SomeD)
        moreover have "inj_on snd (set base)"
          using Cons.prems(1) by (simp add: separated_def distinct_map)
        ultimately have "(k', a) = (k, a)"
          using inj_onD [of snd "set base" "(k', a)" "(k, a)"] by simp
        with False show False by simp
      qed
      then have "store ?s1 a = store s a" by simp
      with IH p False show ?thesis
        by (simp cong: option.case_cong pyval.case_cong)
    qed
  next
    case False
    obtain s1 base1 where a: "assign_item s base k' v = (s1, base1)"
      by (cases "assign_item s base k' v")
    from False Cons.prems(4) p a have run: "merge_dicts_refs s1 base1 rest = (s', base')"
      by (auto split: option.splits pyval.splits)
    have sep: "separated s1 base1" using separated_assign [OF Cons.prems(1) a] .
    from a have s1: "s1 = s\<lparr>store := (store s)(fresh s := v), fresh := Suc (fresh s)\<rparr>"
      and b1: "base1 = AList.update k' (fresh s) base" by (auto simp: assign_item_def)
    have same: "store s1 a = store s a" using a_lt by (simp add: s1)
    show ?thesis
    proof (cases "k' = k")
      case True
      have "a \<notin> snd ` set base1"
        unfolding b1 using Cons.prems(1,3) a_lt True
        by (intro update_removes_old) (auto simp: separated_def)
      moreover have "a < fresh s1" using a_lt by (simp add: s1)
      ultimately have "store s' a = store s1 a"
        using store_unreferenced [OF sep _ _ run] by blast
      with same have "store s' a = store s a" by simp
      moreover have "(case map_of (p # rest) k of
          Some (VDict o') \<Rightarrow> (case store s a of VDict b \<Rightarrow> VDict (merge_dicts b o') | _ \<Rightarrow> store s a)
        | _ \<Rightarrow> store s a) = store s a"
        using False True p Cons.prems(3) by (auto split: pyval.splits)
      ultimately show ?thesis by simp
    next
      case False
      then have m1: "map_of base1 k = Some a" using Cons.prems(3) by (simp add: b1 update_conv')
      from Cons.IH [OF sep d m1 run] same p False show ?thesis
        by (simp cong: option.case_cong pyval.case_cong)
    qed
  qed
qed

lemma defaults_intact_hold: "defaults_intact s \<longleftrightarrow> defaults_hold s default_ai"
  by (simp add: defaults_intact_def defaults_hold_def default_config_value_def)

lemma load_config_document:
  "config_file s = Document (VDict ov) \<Longrightarrow>
   load_config path s = merge_dicts_refs s (DEFAULT_CONFIG s) ov"
  by (cases ov) (simp_all add: load_config_def Let_def)

lemma ref_items_three:
  assumes "ref_items s d = [(k1, v1), (k2, v2), (k3, v3)]"
  obtains a1 a2 a3 where "d = [(k1, a1), (k2, a2), (k3, a3)]"
    and "store s a1 = v1" and "store s a2 = v2" and "store s a3 = v3"
proof -
  from assms obtain p1 p2 p3 where d: "d = [p1, p2, p3]"
    by (auto simp: ref_items_def map_eq_Cons_conv)
  with assms have "fst p1 = k1" "store s (snd p1) = v1" "fst p2 = k2" "store s (snd p2) = v2"
    "fst p3 = k3" "store s (snd p3) = v3"
    by (auto simp: ref_items_def)
  with d that [of "snd p1" "snd p2" "snd p3"] show ?thesis
    by (cases p1; cases p2; cases p3) auto
qed

lemma separated_mono:
  "separated s d \<Longrightarrow> fresh s \<le> fresh s' \<Longrightarrow> separated s' d"
  by (auto simp: separated_def)

lemma load_config_defaults:
  assumes hold: "defaults_hold s b"
    and cfile: "config_file s = Document (VDict ov)"
    and dist: "distinct (map fst ov)"
    and load: "load_config path s = (s', cfg)"
  shows "defaults_hold s' (merge_dicts b (overlay_ai ov))"
    and "ref_items s' cfg =
           merge_dicts [(''ai'', VDict b), (''commit_style'', VStr ''conventional''),
                        (''diff_truncation_limit'', VInt 4000)] ov"
    and "DEFAULT_CONFIG s' = DEFAULT_CONFIG s"
    and "config_file s' = config_file s"
    and "printed s' = printed s"
proof -
  let ?dc = "DEFAULT_CONFIG s"
  from hold have sep: "separated s ?dc"
    and items: "ref_items s ?dc = [(''ai'', VDict b), (''commit_style'', VStr ''conventional''),
        (''diff_truncation_limit'', VInt 4000)]"
    by (auto simp: defaults_hold_def)
  from load cfile have run: "merge_dicts_refs s ?dc ov = (s', cfg)"
    by (simp add: load_config_document)
  from merge_dicts_refs_frame [OF run]
  show frame: "DEFAULT_CONFIG s' = DEFAULT_CONFIG s" "config_file s' = config_file s"
    "printed s' = printed s" by auto
  from merge_dicts_refs_frame [OF run] have le: "fresh s \<le> fresh s'" by simp
  from merge_dicts_refs_refines [OF sep run] items
  show "ref_items s' cfg =
           merge_dicts [(''ai'', VDict b), (''commit_style'', VStr ''conventional''),
                        (''diff_truncation_limit'', VInt 4000)] ov" by simp
  from items obtain a0 a1 a2 where dc: "?dc = [(''ai'', a0), (''commit_style'', a1),
      (''diff_truncation_limit'', a2)]"
    and s0: "store s a0 = VDict b" and s1: "store s a1 = VStr ''conventional''"
    and s2: "store s a2 = VInt 4000"
    by (rule ref_items_three)
  have m0: "map_of ?dc ''ai'' = Some a0" and m1: "map_of ?dc ''commit_style'' = Some a1"
    and m2: "map_of ?dc ''diff_truncation_limit'' = Some a2"
    by (simp_all add: dc)
  have "store s' a0 = VDict (merge_dicts b (overlay_ai ov))"
    using store_referenced [OF sep dist m0 run] s0
    by (auto simp: overlay_ai_def split: option.splits pyval.splits)
  moreover have "store s' a1 = VStr ''conventional''"
    using store_referenced [OF sep dist m1 run] s1
    by (auto split: option.splits pyval.splits)
  moreover have "store s' a2 = VInt 4000"
    using store_referenced [OF sep dist m2 run] s2
    by (auto split: option.splits pyval.splits)
  ultimately have "ref_items s' ?dc = [(''ai'', VDict (merge_dicts b (overlay_ai ov))),
      (''commit_style'', VStr ''conventional''), (''diff_truncation_limit'', VInt 4000)]"
    by (simp add: dc ref_items_def)
  moreover have "separated s' ?dc" using sep le by (rule separated_mono)
  ultimately show "defaults_hold s' (merge_dicts b (overlay_ai ov))"
    by (simp add: defaults_hold_def frame)
qed



section \<open>Properties of load\_config\<close>

lemma initial_state_intact: "defaults_intact (initial_state f)"
  by (simp add: defaults_intact_def separated_def initial_state_def ref_items_def
      default_config_value_def)

lemma default_leaves:
  "map_of default_ai ''provider'' = Some (VStr ''openai'')"
  "map_of default_ai ''model'' = Some (VStr ''gpt-3.5-turbo'')"
  "map_of default_ai ''temperature'' = Some (VFloat ''0.7'')"
  "map_of default_ai ''max_tokens'' = Some (VInt 100)"
  "map_of default_ai ''api_key'' = Some (VStr '''')"
  "map_of default_config_value ''ai'' = Some (VDict default_ai)"
  "map_of default_config_value ''commit_style'' = Some (VStr ''conventional'')"
  "map_of default_config_value ''diff_truncation_limit'' = Some (VInt 4000)"
  by (simp_all add: default_ai_def default_config_value_def)








lemma defaults_hold_other_fields:
  "defaults_hold (s\<lparr>config_file := f\<rparr>) b = defaults_hold s b"
  "defaults_hold (s\<lparr>printed := p\<rparr>) b = defaults_hold s b"
  by (simp_all add: defaults_hold_def separated_def ref_items_def)

lemma defaults_hold_value:
  "defaults_hold s b \<Longrightarrow>
   deref s (DEFAULT_CONFIG s) =
     VDict [(''ai'', VDict b), (''commit_style'', VStr ''conventional''),
            (''diff_truncation_limit'', VInt 4000)]"
  by (simp add: defaults_hold_def deref_def)

lemma load_config_value_hold:
  assumes "defaults_hold s b" and "config_file s = Document (VDict ov)"
    and "distinct (map fst ov)"
  shows "deref (fst (load_config path s)) (snd (load_config path s)) =
           VDict (merge_dicts [(''ai'', VDict b), (''commit_style'', VStr ''conventional''),
                               (''diff_truncation_limit'', VInt 4000)] ov)"
    and "defaults_hold (fst (load_config path s)) (merge_dicts b (overlay_ai ov))"
    and "config_file (fst (load_config path s)) = config_file s"
proof -
  obtain s' cfg where l: "load_config path s = (s', cfg)" by (cases "load_config path s")
  from load_config_defaults(2) [OF assms l] l
  show "deref (fst (load_config path s)) (snd (load_config path s)) =
           VDict (merge_dicts [(''ai'', VDict b), (''commit_style'', VStr ''conventional''),
                               (''diff_truncation_limit'', VInt 4000)] ov)"
    by (simp add: deref_def)
  from load_config_defaults(1) [OF assms l] l
  show "defaults_hold (fst (load_config path s)) (merge_dicts b (overlay_ai ov))"
    by simp
  from load_config_defaults(4) [OF assms l] l
  show "config_file (fst (load_config path s)) = config_file s" by simp
qed

text \<open>
  C3. The claim fails on the code: \<open>DEFAULT_CONFIG.copy()\<close> is a shallow copy, so merging
  an overlay with an \<open>ai\<close> section changes the \<open>ai\<close> dictionary of \<open>DEFAULT_CONFIG\<close>
  itself. After a first load of a file that sets the model, \<open>DEFAULT_CONFIG\<close> holds that
  model, and a later load of a file that does not set it returns it.
\<close>

theorem load_config_changes_defaults:
  "lookup_path
     (deref
        (fst (load_config ''config.yaml''
           (initial_state (Document (VDict [(''ai'', VDict [(''model'', VStr ''gpt-4'')])])))))
        (DEFAULT_CONFIG
           (fst (load_config ''config.yaml''
              (initial_state (Document (VDict [(''ai'', VDict [(''model'', VStr ''gpt-4'')])])))))))
     [''ai'', ''model''] = Some (VStr ''gpt-4'')
   \<and> lookup_path
        (deref (initial_state (Document (VDict [(''ai'', VDict [(''model'', VStr ''gpt-4'')])])))
           (DEFAULT_CONFIG
              (initial_state (Document (VDict [(''ai'', VDict [(''model'', VStr ''gpt-4'')])])))))
        [''ai'', ''model''] = Some (VStr ''gpt-3.5-turbo'')
   \<and> lookup_path
        (deref
           (fst (load_config ''config.yaml''
              ((fst (load_config ''config.yaml''
                  (initial_state
                     (Document (VDict [(''ai'', VDict [(''model'', VStr ''gpt-4'')])])))))
               \<lparr>config_file := Document (VDict [(''commit_style'', VStr ''plain'')])\<rparr>)))
           (snd (load_config ''config.yaml''
              ((fst (load_config ''config.yaml''
                  (initial_state
                     (Document (VDict [(''ai'', VDict [(''model'', VStr ''gpt-4'')])])))))
               \<lparr>config_file := Document (VDict [(''commit_style'', VStr ''plain'')])\<rparr>))))
        [''ai'', ''model''] = Some (VStr ''gpt-4'')"
proof -
  let ?ov = "[(''ai'', VDict [(''model'', VStr ''gpt-4'')])]"
  let ?s = "initial_state (Document (VDict ?ov))"
  let ?s1 = "fst (load_config ''config.yaml'' ?s)"
  let ?b1 = "[(''provider'', VStr ''openai''), (''model'', VStr ''gpt-4''),
      (''temperature'', VFloat ''0.7''), (''max_tokens'', VInt 100), (''api_key'', VStr '''')]"
  let ?ov2 = "[(''commit_style'', VStr ''plain'')]"
  let ?s2 = "?s1\<lparr>config_file := Document (VDict ?ov2)\<rparr>"
  have h0: "defaults_hold ?s default_ai"
    using initial_state_intact by (simp add: defaults_intact_hold)
  have f0: "config_file ?s = Document (VDict ?ov)" by (simp add: initial_state_def)
  have b1: "merge_dicts default_ai (overlay_ai ?ov) = ?b1"
    by (simp add: overlay_ai_def default_ai_def)
  have h1: "defaults_hold ?s1 ?b1"
    using load_config_value_hold(2) [OF h0 f0, of "''config.yaml''"] b1 by simp
  then have h2: "defaults_hold ?s2 ?b1" by (simp add: defaults_hold_other_fields)
  have f2: "config_file ?s2 = Document (VDict ?ov2)" by simp
  have c1: "lookup_path (deref ?s1 (DEFAULT_CONFIG ?s1)) [''ai'', ''model''] = Some (VStr ''gpt-4'')"
    using defaults_hold_value [OF h1] by simp
  have c2: "lookup_path (deref ?s (DEFAULT_CONFIG ?s)) [''ai'', ''model'']
              = Some (VStr ''gpt-3.5-turbo'')"
    using defaults_hold_value [OF h0] by (simp add: default_ai_def)
  have c3: "lookup_path
        (deref (fst (load_config ''config.yaml'' ?s2)) (snd (load_config ''config.yaml'' ?s2)))
        [''ai'', ''model''] = Some (VStr ''gpt-4'')"
    using load_config_value_hold(1) [OF h2 f2, of "''config.yaml''"] by simp
  from c1 c2 c3 show ?thesis by (simp only: simp_thms)
qed

section \<open>Properties of the created file\<close>

lemma yaml_dump_load_defaults:
  "yaml_dump_load (VDict default_config_value) = default_document"
  by code_simp

lemma load_config_creates_file:
  assumes "defaults_intact s" and "config_file s = Absent"
  shows "config_file (fst (load_config path s)) = Document default_document
       \<and> printed (fst (load_config path s)) =
           printed s @ [''Created default configuration at '' @ path,
                        ''Please update it with your AI provider API key.'']"
proof -
  let ?s1 = "(create_default_config s)
               \<lparr>printed := printed s @
                  [''Created default configuration at '' @ path,
                   ''Please update it with your AI provider API key.'']\<rparr>"
  obtain items where d: "default_document = VDict items" and ne: "items \<noteq> []"
    by (simp add: default_document_def)
  have "deref s (DEFAULT_CONFIG s) = VDict default_config_value"
    using assms(1) by (simp add: deref_def defaults_intact_def)
  then have "yaml_dump_load (deref s (DEFAULT_CONFIG s)) = VDict items"
    using d by (simp only: yaml_dump_load_defaults)
  then have doc: "config_file ?s1 = Document (VDict items)"
    by (simp add: create_default_config_def)
  have run: "load_config path s = merge_dicts_refs ?s1 (DEFAULT_CONFIG ?s1) items"
    using assms(2) doc ne by (simp add: load_config_def Let_def)
  obtain s' cfg where r: "merge_dicts_refs ?s1 (DEFAULT_CONFIG ?s1) items = (s', cfg)"
    by (cases "merge_dicts_refs ?s1 (DEFAULT_CONFIG ?s1) items")
  from merge_dicts_refs_frame [OF r] have "config_file s' = config_file ?s1"
    and "printed s' = printed ?s1" by simp_all
  with run r doc d show ?thesis by (simp add: create_default_config_def)
qed

text \<open>
  C4, as the claim states it, fails on the provider: the file that is created names the
  provider \<open>openai\<close>, which is what \<open>DEFAULT_CONFIG\<close> holds, not \<open>default-provider\<close>.
\<close>

theorem created_file_provider:
  "(case config_file (fst (load_config ''config.yaml'' (initial_state Absent))) of
      Document v \<Rightarrow> lookup_path v [''ai'', ''provider'']
    | _ \<Rightarrow> None) = Some (VStr ''openai'')
   \<and> VStr ''openai'' \<noteq> VStr ''default-provider''"
proof -
  have "config_file (initial_state Absent) = Absent" by (simp add: initial_state_def)
  from load_config_creates_file [OF initial_state_intact this, of "''config.yaml''"]
  show ?thesis by (simp add: default_document_def)
qed

text \<open>
  C4, amended. When the configuration file is absent and the defaults are intact,
  \<open>load_config\<close> creates the file with the defaults of the source (provider \<open>openai\<close>, model
  \<open>gpt-3.5-turbo\<close>, temperature 0.7, at most 100 tokens, an empty API key, commit style
  \<open>conventional\<close>, truncation limit 4000) and prints that it created it, with the path.
\<close>

theorem load_config_creates_default_file:
  assumes "defaults_intact s" and "config_file s = Absent"
  shows "config_file (fst (load_config path s)) =
           Document
             (VDict [(''ai'', VDict [(''api_key'', VStr []),
                                    (''max_tokens'', VInt 100),
                                    (''model'', VStr ''gpt-3.5-turbo''),
                                    (''provider'', VStr ''openai''),
                                    (''temperature'', VFloat ''0.7'')]),
                     (''commit_style'', VStr ''conventional''),
                     (''diff_truncation_limit'', VInt 4000)])
       \<and> printed (fst (load_config path s)) =
           printed s @ [''Created default configuration at '' @ path,
                        ''Please update it with your AI provider API key.'']"
  using load_config_creates_file [OF assms, of path] by (simp add: default_document_def)

theorem load_config_creates_default_file_witness:
  "defaults_intact (initial_state Absent)
   \<and> config_file (initial_state Absent) = Absent
   \<and> config_file (fst (load_config ''/home/u/.commy/config.yaml'' (initial_state Absent))) =
           Document
             (VDict [(''ai'', VDict [(''api_key'', VStr []),
                                    (''max_tokens'', VInt 100),
                                    (''model'', VStr ''gpt-3.5-turbo''),
                                    (''provider'', VStr ''openai''),
                                    (''temperature'', VFloat ''0.7'')]),
                     (''commit_style'', VStr ''conventional''),
                     (''diff_truncation_limit'', VInt 4000)])
   \<and> printed (fst (load_config ''/home/u/.commy/config.yaml'' (initial_state Absent))) =
           [''Created default configuration at /home/u/.commy/config.yaml'',
            ''Please update it with your AI provider API key.'']"
proof -
  have h1: "defaults_intact (initial_state Absent)" by (rule initial_state_intact)
  have h2: "config_file (initial_state Absent) = Absent" by (simp add: initial_state_def)
  from load_config_creates_default_file [OF h1 h2, of "''/home/u/.commy/config.yaml''"] h1 h2
  show ?thesis by (simp add: initial_state_def)
qed

section \<open>Properties of get\_api\_key\<close>







section \<open>Properties of the review loop\<close>

lemma console_prints_shown:
  "\<forall>ev\<in>set evs. console ev = None \<Longrightarrow> console_prints console evs = (evs, None)"
  by (induction evs) (simp_all add: emit_def)

lemma printing_shown:
  "\<forall>ev\<in>set evs. console ev = None \<Longrightarrow> printing console evs rest = emit evs rest"
  by (simp add: printing_def console_prints_shown)

lemma no_call_in_stdout: "filter is_call (map Stdout out) = []"
  by (induction out) simp_all

lemma no_call_in_print:
  "filter is_call (fst (printing console [Print text] ([], st))) = []"
  by (simp add: printing_def emit_def split: option.splits)

lemma review_loop_accept:
  assumes "py_lower c \<in> {''y'', ''yes''}"
  shows "filter is_call (fst (review_loop console sys gen diff m n (c # inputs))) =
           [CallCommit m]"
proof (cases "commit_changes sys m")
  case (Pair out r)
  show ?thesis
  proof (cases r)
    case (Inl e)
    with Pair assms show ?thesis by (auto simp: emit_def no_call_in_stdout)
  next
    case (Inr ok)
    have "filter is_call (fst (printing console
            [if ok then Print ''[bold green]Commit successful![/bold green]''
             else Print ''[bold red]Commit failed.[/bold red]''] ([], Returned))) = []"
      by (cases ok) (simp_all add: no_call_in_print)
    with Pair Inr assms show ?thesis by (auto simp: emit_def no_call_in_stdout)
  qed
qed

lemma regenerate_shown:
  assumes "gen n = Inr m"
    and "console (Print (CHR 0x0A # ''[bold]Regenerated commit message:[/bold]'')) = None"
    and "console (Panel m) = None"
  shows "regenerate console gen diff n =
           ([CallGenerate diff, Print (CHR 0x0A # ''[bold]Regenerated commit message:[/bold]''),
             Panel m], Inr m)"
  using assms by (simp add: regenerate_def emit_def)

lemma review_loop_regenerate:
  assumes "py_lower c \<in> {''r'', ''regenerate''}" and "gen n = Inr m'"
    and "console (Print (CHR 0x0A # ''[bold]Regenerated commit message:[/bold]'')) = None"
    and "console (Panel m') = None"
  shows "filter is_call (fst (review_loop console sys gen diff m n (c # inputs))) =
           CallGenerate diff #
           filter is_call (fst (review_loop console sys gen diff m' (Suc n) inputs))"
proof -
  have "regenerate console gen diff n =
           ([CallGenerate diff, Print (CHR 0x0A # ''[bold]Regenerated commit message:[/bold]''),
             Panel m'], Inr m')"
    using assms(2-4) by (rule regenerate_shown)
  with assms(1) show ?thesis by (auto simp: emit_def)
qed

lemma review_loop_invalid:
  assumes "py_lower c \<notin> {''y'', ''yes'', ''r'', ''regenerate'', ''n'', ''no''}"
    and "console (Print ''[bold red]Invalid choice. Please try again.[/bold red]'') = None"
  shows "review_loop console sys gen diff m n (c # inputs) =
           (Prompt # Print ''[bold red]Invalid choice. Please try again.[/bold red]'' #
              fst (review_loop console sys gen diff m n inputs),
            snd (review_loop console sys gen diff m n inputs))"
  using assms by (simp add: printing_shown emit_def)

lemma show_diff_shown:
  assumes "get_staged_diff sys limit = Inr (diff, truncated)"
    and "verbose \<longrightarrow> console (TitledPanel ''Git Diff'' diff) = None"
    and "truncated \<longrightarrow>
           console (Print ''[bold yellow]Warning:[/bold yellow] Diff was truncated due to size.'')
             = None"
  shows "snd (show_diff console verbose sys limit) = Inr diff
       \<and> filter is_call (fst (show_diff console verbose sys limit)) = []"
  using assms by (simp add: show_diff_def console_prints_shown)

lemma generate_calls:
  assumes "is_git_repository sys = Inr True" and "has_staged_changes sys = Inr True"
    and "get_staged_files sys = Inr files"
    and "get_staged_diff sys limit = Inr (diff, truncated)"
    and "gen 0 = Inr m"
    and "console (Print (''[bold green]Staged files:[/bold green] '' @ py_join '', '' files))
           = None"
    and "verbose \<longrightarrow> console (TitledPanel ''Git Diff'' diff) = None"
    and "truncated \<longrightarrow>
           console (Print ''[bold yellow]Warning:[/bold yellow] Diff was truncated due to size.'')
             = None"
    and "console (Print (CHR 0x0A # ''[bold]Generated commit message:[/bold]'')) = None"
    and "console (Panel m) = None"
  shows "filter is_call (fst (generate console verbose sys limit gen inputs)) =
           CallGenerate diff #
           filter is_call (fst (review_loop console sys gen diff m 1 inputs))"
proof -
  obtain ev where sd: "show_diff console verbose sys limit = (ev, Inr diff)"
    and nc: "filter is_call ev = []"
    using show_diff_shown [of sys limit diff truncated verbose console] assms(4,7,8)
    by (cases "show_diff console verbose sys limit") auto
  show ?thesis
    using assms(1,2,3,5,6,9,10) sd nc
    by (simp add: generate_def printing_shown emit_def)
qed

lemma example_system:
  fixes sys :: system
  assumes "sys = (\<lambda>argv. if argv = [''git'', ''rev-parse'', ''--is-inside-work-tree'']
                then Completed 0 ''true'' []
                else if argv = [''git'', ''diff'', ''--cached'', ''--name-only'']
                then Completed 0 ''a.py'' []
                else Completed 0 ''+x'' [])"
  shows "is_git_repository sys = Inr True" and "has_staged_changes sys = Inr True"
    and "get_staged_files sys = Inr [''a.py'']"
    and "get_staged_diff sys (Some 4000) = Inr (''+x'', False)"
    and "commit_changes sys ''m3'' = ([], Inr True)"
proof -
  show "is_git_repository sys = Inr True"
    by (simp add: assms is_git_repository_def subprocess_run_def py_strip_def py_isspace_def)
  show "has_staged_changes sys = Inr True"
    by (simp add: assms has_staged_changes_def subprocess_run_def py_strip_def py_isspace_def)
  show "get_staged_files sys = Inr [''a.py'']"
    by (simp add: assms get_staged_files_def subprocess_run_def py_splitlines_def
        py_linebreak_def)
  show "get_staged_diff sys (Some 4000) = Inr (''+x'', False)"
    by (simp add: assms get_staged_diff_def subprocess_run_def)
  show "commit_changes sys ''m3'' = ([], Inr True)"
    by (simp add: assms commit_changes_def subprocess_run_def py_replace_char)
qed

lemma example_choices:
  "py_lower ''r'' = ''r''" "py_lower ''R'' = ''r''" "py_lower ''regenerate'' = ''regenerate''"
  "py_lower ''Yes'' = ''yes''" "py_lower ''y'' = ''y''" "py_lower ''n'' = ''n''"
  "py_lower ''maybe'' = ''maybe''"
  by code_simp+

text \<open>
  C9, as the claim states it, fails for a generated message that the console cannot
  show. The console reads the message as markup and raises \<open>MarkupError\<close> for the closing
  tag of \<open>feat: add [/api] route\<close>, which closes nothing; the handler of the loop reports
  the text of that exception, which holds the same tag, so the report raises as well.
  With the answers regenerate, regenerate, yes and this message as the third one, the
  command makes three generation calls and no commit call, and ends with the exception.
\<close>

theorem review_markup_error:
  "filter is_call
     (fst (generate
        (\<lambda>ev. if ev = Panel ''feat: add [/api] route''
               then Some (MarkupError
                  ''closing tag '[/api]' at position 10 doesn't match any open tag'')
               else if ev = PrintExn
                  ''[bold red]Error:[/bold red] Failed to regenerate commit message: ''
                  (MarkupError ''closing tag '[/api]' at position 10 doesn't match any open tag'')
               then Some (MarkupError
                  ''closing tag '[/api]' at position 78 doesn't match any open tag'')
               else None)
        False
        (\<lambda>argv. if argv = [''git'', ''rev-parse'', ''--is-inside-work-tree'']
                then Completed 0 ''true'' []
                else if argv = [''git'', ''diff'', ''--cached'', ''--name-only'']
                then Completed 0 ''a.py'' []
                else Completed 0 ''+x'' [])
        (Some 4000)
        (\<lambda>k. Inr (if k = 0 then ''m1'' else if k = 1 then ''m2''
                  else ''feat: add [/api] route''))
        [''r'', ''r'', ''y''])) =
     [CallGenerate ''+x'', CallGenerate ''+x'', CallGenerate ''+x'']
   \<and> snd (generate
        (\<lambda>ev. if ev = Panel ''feat: add [/api] route''
               then Some (MarkupError
                  ''closing tag '[/api]' at position 10 doesn't match any open tag'')
               else if ev = PrintExn
                  ''[bold red]Error:[/bold red] Failed to regenerate commit message: ''
                  (MarkupError ''closing tag '[/api]' at position 10 doesn't match any open tag'')
               then Some (MarkupError
                  ''closing tag '[/api]' at position 78 doesn't match any open tag'')
               else None)
        False
        (\<lambda>argv. if argv = [''git'', ''rev-parse'', ''--is-inside-work-tree'']
                then Completed 0 ''true'' []
                else if argv = [''git'', ''diff'', ''--cached'', ''--name-only'']
                then Completed 0 ''a.py'' []
                else Completed 0 ''+x'' [])
        (Some 4000)
        (\<lambda>k. Inr (if k = 0 then ''m1'' else if k = 1 then ''m2''
                  else ''feat: add [/api] route''))
        [''r'', ''r'', ''y'']) =
     Raised (MarkupError ''closing tag '[/api]' at position 78 doesn't match any open tag'')"
proof -
  define sys :: system where
    "sys = (\<lambda>argv. if argv = [''git'', ''rev-parse'', ''--is-inside-work-tree'']
                then Completed 0 ''true'' []
                else if argv = [''git'', ''diff'', ''--cached'', ''--name-only'']
                then Completed 0 ''a.py'' []
                else Completed 0 ''+x'' [])"
  define gen :: "nat \<Rightarrow> exn + string" where
    "gen = (\<lambda>k. Inr (if k = 0 then ''m1'' else if k = 1 then ''m2''
                  else ''feat: add [/api] route''))"
  define console :: console where
    "console = (\<lambda>ev. if ev = Panel ''feat: add [/api] route''
               then Some (MarkupError
                  ''closing tag '[/api]' at position 10 doesn't match any open tag'')
               else if ev = PrintExn
                  ''[bold red]Error:[/bold red] Failed to regenerate commit message: ''
                  (MarkupError ''closing tag '[/api]' at position 10 doesn't match any open tag'')
               then Some (MarkupError
                  ''closing tag '[/api]' at position 78 doesn't match any open tag'')
               else None)"
  note pre = example_system(1-4) [OF sys_def]
  have g: "gen 0 = Inr ''m1''" "gen 1 = Inr ''m2''" "gen 2 = Inr ''feat: add [/api] route''"
    by (simp_all add: gen_def)
  have c: "console (Print (''[bold green]Staged files:[/bold green] '' @ py_join '', '' [''a.py'']))
             = None"
    "console (Print (CHR 0x0A # ''[bold]Generated commit message:[/bold]'')) = None"
    "console (Print (CHR 0x0A # ''[bold]Regenerated commit message:[/bold]'')) = None"
    "console (Panel ''m1'') = None" "console (Panel ''m2'') = None"
    by (simp_all add: console_def)
  have r3: "regenerate console gen ''+x'' 2 =
              ([CallGenerate ''+x'',
                Print (CHR 0x0A # ''[bold]Regenerated commit message:[/bold]'')],
               Inl (Raised (MarkupError
                  ''closing tag '[/api]' at position 78 doesn't match any open tag'')))"
    by (simp add: regenerate_def g printing_def emit_def console_def)
  have r2: "regenerate console gen ''+x'' 1 =
              ([CallGenerate ''+x'',
                Print (CHR 0x0A # ''[bold]Regenerated commit message:[/bold]''), Panel ''m2''],
               Inr ''m2'')"
    using g(2) c(3,5) by (rule regenerate_shown)
  have l2: "review_loop console sys gen ''+x'' ''m2'' 2 [''r'', ''y''] =
              ([Prompt, CallGenerate ''+x'',
                Print (CHR 0x0A # ''[bold]Regenerated commit message:[/bold]'')],
               Raised (MarkupError
                  ''closing tag '[/api]' at position 78 doesn't match any open tag''))"
    using r3 by (simp add: example_choices emit_def numeral_2_eq_2)
  have l1: "review_loop console sys gen ''+x'' ''m1'' 1 [''r'', ''r'', ''y''] =
              ([Prompt, CallGenerate ''+x'',
                Print (CHR 0x0A # ''[bold]Regenerated commit message:[/bold]''), Panel ''m2'',
                Prompt, CallGenerate ''+x'',
                Print (CHR 0x0A # ''[bold]Regenerated commit message:[/bold]'')],
               Raised (MarkupError
                  ''closing tag '[/api]' at position 78 doesn't match any open tag''))"
    using r2 l2 by (simp add: example_choices emit_def numeral_2_eq_2)
  have sd: "show_diff console False sys (Some 4000) = ([], Inr ''+x'')"
    by (simp add: show_diff_def pre)
  have "generate console False sys (Some 4000) gen [''r'', ''r'', ''y''] =
          ([Print (''[bold green]Staged files:[/bold green] '' @ py_join '', '' [''a.py'']),
            CallGenerate ''+x'',
            Print (CHR 0x0A # ''[bold]Generated commit message:[/bold]''), Panel ''m1'',
            Prompt, CallGenerate ''+x'',
            Print (CHR 0x0A # ''[bold]Regenerated commit message:[/bold]''), Panel ''m2'',
            Prompt, CallGenerate ''+x'',
            Print (CHR 0x0A # ''[bold]Regenerated commit message:[/bold]'')],
           Raised (MarkupError
              ''closing tag '[/api]' at position 78 doesn't match any open tag''))"
    using c(1,2,4) l1 by (simp add: generate_def pre sd g printing_shown emit_def)
  then show ?thesis unfolding sys_def gen_def console_def by simp
qed

text \<open>
  C9, amended. When the checks and the diff before the first generation succeed, the three
  generation calls return the messages \<open>m1\<close>, \<open>m2\<close>, \<open>m3\<close>, the console shows without
  raising what comes before the commit (the line of staged files, the diff panel when
  \<open>verbose\<close> is set, the truncation warning when the diff was truncated, the two headings
  and the panels of the three messages), and the user answers regenerate, regenerate, yes
  (in any case, short or long form), the calls that \<open>generate\<close> makes are exactly three
  calls of \<open>generate_commit_message\<close> followed by one call of \<open>commit_changes\<close>, with
  \<open>m3\<close>. An answer outside the six accepted strings, when the console shows the line about
  the invalid choice, makes the loop show that line and prompt again with the same message
  and the same number of generation calls: nothing is generated, committed or displayed
  anew.
\<close>

theorem review_regenerate_twice_then_yes:
  assumes "is_git_repository sys = Inr True" and "has_staged_changes sys = Inr True"
    and "get_staged_files sys = Inr files"
    and "get_staged_diff sys limit = Inr (diff, truncated)"
    and "gen 0 = Inr m1" and "gen 1 = Inr m2" and "gen 2 = Inr m3"
    and "py_lower c1 \<in> {''r'', ''regenerate''}" and "py_lower c2 \<in> {''r'', ''regenerate''}"
    and "py_lower c3 \<in> {''y'', ''yes''}"
    and "console (Print (''[bold green]Staged files:[/bold green] '' @ py_join '', '' files))
           = None"
    and "verbose \<longrightarrow> console (TitledPanel ''Git Diff'' diff) = None"
    and "truncated \<longrightarrow>
           console (Print ''[bold yellow]Warning:[/bold yellow] Diff was truncated due to size.'')
             = None"
    and "console (Print (CHR 0x0A # ''[bold]Generated commit message:[/bold]'')) = None"
    and "console (Print (CHR 0x0A # ''[bold]Regenerated commit message:[/bold]'')) = None"
    and "console (Panel m1) = None" and "console (Panel m2) = None"
    and "console (Panel m3) = None"
  shows "filter is_call (fst (generate console verbose sys limit gen (c1 # c2 # c3 # rest))) =
           [CallGenerate diff, CallGenerate diff, CallGenerate diff, CallCommit m3]
       \<and> (py_lower c \<notin> {''y'', ''yes'', ''r'', ''regenerate'', ''n'', ''no''}
            \<and> console (Print ''[bold red]Invalid choice. Please try again.[/bold red]'') = None
          \<longrightarrow>
            review_loop console sys gen diff m n (c # inputs) =
              (Prompt # Print ''[bold red]Invalid choice. Please try again.[/bold red]'' #
                 fst (review_loop console sys gen diff m n inputs),
               snd (review_loop console sys gen diff m n inputs)))"
proof -
  have "filter is_call (fst (review_loop console sys gen diff m3 3 (c3 # rest))) =
          [CallCommit m3]"
    using assms(10) by (rule review_loop_accept)
  then have "filter is_call (fst (review_loop console sys gen diff m2 2 (c2 # c3 # rest))) =
               [CallGenerate diff, CallCommit m3]"
    using review_loop_regenerate [of c2 gen 2 m3 console sys diff m2 "c3 # rest"]
      assms(7,9,15,18)
    by (simp add: numeral_3_eq_3 numeral_2_eq_2)
  then have "filter is_call (fst (review_loop console sys gen diff m1 1 (c1 # c2 # c3 # rest))) =
               [CallGenerate diff, CallGenerate diff, CallCommit m3]"
    using review_loop_regenerate [of c1 gen 1 m2 console sys diff m1 "c2 # c3 # rest"]
      assms(6,8,15,17)
    by (simp add: numeral_2_eq_2)
  then have "filter is_call (fst (generate console verbose sys limit gen (c1 # c2 # c3 # rest))) =
           [CallGenerate diff, CallGenerate diff, CallGenerate diff, CallCommit m3]"
    using generate_calls [of sys files limit diff truncated gen m1 console verbose
        "c1 # c2 # c3 # rest"] assms(1-5,11-14,16)
    by simp
  then show ?thesis
    using review_loop_invalid [of c console sys gen diff m n inputs] by blast
qed

theorem review_regenerate_twice_then_yes_witness:
  "filter is_call
     (fst (generate
        (\<lambda>ev. if ev = Panel ''a [/] b''
               then Some (MarkupError ''closing tag '[/]' at position 2 has nothing to close'')
               else None)
        False
        (\<lambda>argv. if argv = [''git'', ''rev-parse'', ''--is-inside-work-tree'']
                then Completed 0 ''true'' []
                else if argv = [''git'', ''diff'', ''--cached'', ''--name-only'']
                then Completed 0 ''a.py'' []
                else Completed 0 ''+x'' [])
        (Some 4000)
        (\<lambda>k. Inr (if k = 0 then ''m1'' else if k = 1 then ''m2'' else ''m3''))
        [''R'', ''regenerate'', ''Yes''])) =
     [CallGenerate ''+x'', CallGenerate ''+x'', CallGenerate ''+x'', CallCommit ''m3'']
   \<and> review_loop
        (\<lambda>ev. if ev = Panel ''a [/] b''
               then Some (MarkupError ''closing tag '[/]' at position 2 has nothing to close'')
               else None)
        (\<lambda>argv. if argv = [''git'', ''rev-parse'', ''--is-inside-work-tree'']
                then Completed 0 ''true'' []
                else if argv = [''git'', ''diff'', ''--cached'', ''--name-only'']
                then Completed 0 ''a.py'' []
                else Completed 0 ''+x'' [])
        (\<lambda>k. Inr (if k = 0 then ''m1'' else if k = 1 then ''m2'' else ''m3''))
        ''+x'' ''m1'' 1 [''maybe'', ''n''] =
       ([Prompt, Print ''[bold red]Invalid choice. Please try again.[/bold red]'',
         Prompt, Print ''[bold yellow]Aborted. No changes were committed.[/bold yellow]''],
        Returned)"
proof -
  define sys :: system where
    "sys = (\<lambda>argv. if argv = [''git'', ''rev-parse'', ''--is-inside-work-tree'']
                then Completed 0 ''true'' []
                else if argv = [''git'', ''diff'', ''--cached'', ''--name-only'']
                then Completed 0 ''a.py'' []
                else Completed 0 ''+x'' [])"
  define gen :: "nat \<Rightarrow> exn + string" where
    "gen = (\<lambda>k. Inr (if k = 0 then ''m1'' else if k = 1 then ''m2'' else ''m3''))"
  define console :: console where
    "console = (\<lambda>ev. if ev = Panel ''a [/] b''
               then Some (MarkupError ''closing tag '[/]' at position 2 has nothing to close'')
               else None)"
  note pre = example_system(1-4) [OF sys_def]
  have g: "gen 0 = Inr ''m1''" "gen 1 = Inr ''m2''" "gen 2 = Inr ''m3''"
    by (simp_all add: gen_def)
  have ch: "py_lower ''R'' \<in> {''r'', ''regenerate''}"
    "py_lower ''regenerate'' \<in> {''r'', ''regenerate''}"
    "py_lower ''Yes'' \<in> {''y'', ''yes''}"
    and inv: "py_lower ''maybe'' \<notin> {''y'', ''yes'', ''r'', ''regenerate'', ''n'', ''no''}"
    by (simp_all add: example_choices)
  have c: "console (Print (''[bold green]Staged files:[/bold green] '' @ py_join '', '' [''a.py'']))
             = None"
    "False \<longrightarrow> console (TitledPanel ''Git Diff'' ''+x'') = None"
    "False \<longrightarrow>
       console (Print ''[bold yellow]Warning:[/bold yellow] Diff was truncated due to size.'')
         = None"
    "console (Print (CHR 0x0A # ''[bold]Generated commit message:[/bold]'')) = None"
    "console (Print (CHR 0x0A # ''[bold]Regenerated commit message:[/bold]'')) = None"
    "console (Panel ''m1'') = None" "console (Panel ''m2'') = None"
    "console (Panel ''m3'') = None"
    and ci: "console (Print ''[bold red]Invalid choice. Please try again.[/bold red]'') = None"
    and ca: "console (Print ''[bold yellow]Aborted. No changes were committed.[/bold yellow]'')
               = None"
    by (simp_all add: console_def)
  have last: "review_loop console sys gen ''+x'' ''m1'' 1 [''n''] =
                ([Prompt, Print ''[bold yellow]Aborted. No changes were committed.[/bold yellow]''],
                 Returned)"
    using ca by (simp add: example_choices printing_shown emit_def)
  from review_regenerate_twice_then_yes
    [OF pre g ch c, of "[]" "''maybe''" "''m1''" 1 "[''n'']"] inv ci last
  show ?thesis unfolding sys_def gen_def console_def by simp
qed

section \<open>Properties of get\_ai\_provider\<close>

lemma merge_dicts_refs_keeps_ref:
  assumes "map_of base k = Some a" and "is_dict (store s a)" and "a < fresh s"
    and "\<And>v. (k, v) \<in> set ov \<Longrightarrow> is_dict v"
    and "merge_dicts_refs s base ov = (s', cfg)"
  shows "map_of cfg k = Some a"
  using assms
proof (induction ov arbitrary: s base)
  case Nil
  then show ?case by simp
next
  case (Cons p rest)
  obtain k' v where p: "p = (k', v)" by (cases p)
  have "\<exists>s1 base1. merge_dicts_refs s base ((k', v) # rest) = merge_dicts_refs s1 base1 rest
          \<and> map_of base1 k = Some a \<and> is_dict (store s1 a) \<and> a < fresh s1"
  proof (cases "\<exists>a' o' b. map_of base k' = Some a' \<and> v = VDict o' \<and> store s a' = VDict b")
    case True
    then obtain a' o' b where h: "map_of base k' = Some a'" "v = VDict o'" "store s a' = VDict b"
      by blast
    let ?s1 = "s\<lparr>store := (store s)(a' := VDict (merge_dicts b o'))\<rparr>"
    have "merge_dicts_refs s base ((k', v) # rest) = merge_dicts_refs ?s1 base rest"
      using h by simp
    moreover have "is_dict (store ?s1 a)" using Cons.prems(2) by simp
    moreover have "a < fresh ?s1" using Cons.prems(3) by simp
    ultimately show ?thesis using Cons.prems(1) by blast
  next
    case False
    let ?s1 = "s\<lparr>store := (store s)(fresh s := v), fresh := Suc (fresh s)\<rparr>"
    let ?base1 = "AList.update k' (fresh s) base"
    have run: "merge_dicts_refs s base ((k', v) # rest) = merge_dicts_refs ?s1 ?base1 rest"
      using False by (auto simp: assign_item_def split: option.splits pyval.splits)
    have ne: "k' \<noteq> k"
    proof
      assume e: "k' = k"
      with Cons.prems(4) p have "is_dict v" by simp
      then obtain o' where "v = VDict o'" by (cases v) auto
      moreover from Cons.prems(2) obtain b where "store s a = VDict b"
        by (cases "store s a") auto
      ultimately show False using False e Cons.prems(1) by simp
    qed
    then have "map_of ?base1 k = Some a" using Cons.prems(1) by (simp add: update_conv')
    moreover have "is_dict (store ?s1 a)" using Cons.prems(2,3) by simp
    moreover have "a < fresh ?s1" using Cons.prems(3) by simp
    ultimately show ?thesis using run by blast
  qed
  then obtain s1 base1 where
    run: "merge_dicts_refs s base ((k', v) # rest) = merge_dicts_refs s1 base1 rest"
    and m: "map_of base1 k = Some a" and d: "is_dict (store s1 a)" and f: "a < fresh s1"
    by blast
  from Cons.prems(5) p run have r: "merge_dicts_refs s1 base1 rest = (s', cfg)" by simp
  from Cons.prems(4) have "\<And>v. (k, v) \<in> set rest \<Longrightarrow> is_dict v" by simp
  with Cons.IH [OF m d f _ r] show ?case by blast
qed

lemma overlay_ai_lookup:
  assumes "config_overlay ov"
  shows "lookup_path (VDict ov) [''ai'', x] = map_of (overlay_ai ov) x"
proof (cases "map_of ov ''ai''")
  case None
  then show ?thesis by (simp add: overlay_ai_def)
next
  case (Some v)
  with assms show ?thesis
    by (cases v) (simp_all add: config_overlay_def overlay_ai_def split: option.splits)
qed

lemma overlay_ai_distinct:
  assumes "config_overlay ov"
  shows "distinct (map fst (overlay_ai ov))"
proof (cases "map_of ov ''ai''")
  case None
  then show ?thesis by (simp add: overlay_ai_def)
next
  case (Some v)
  with assms show ?thesis by (cases v) (simp_all add: config_overlay_def overlay_ai_def)
qed

lemma setting_after_merge:
  assumes "distinct (map fst a)" and "map_of b x = Some d" and "\<not> is_dict d"
  shows "map_of (merge_dicts b a) x = Some (case map_of a x of Some v \<Rightarrow> v | None \<Rightarrow> d)"
proof (cases "map_of a x")
  case None
  with assms show ?thesis by (simp add: map_of_merge_dicts)
next
  case (Some v)
  from assms(3) have "merged_value (Some d) v = v" by (cases d; cases v) auto
  with Some assms show ?thesis by (simp add: map_of_merge_dicts)
qed

lemma setting_after_merges:
  assumes ov: "config_overlay ov" and nd: "\<forall>v\<in>snd ` set (overlay_ai ov). \<not> is_dict v"
    and d: "map_of default_ai x = Some d" and ndd: "\<not> is_dict d"
  shows "map_of (merge_dicts default_ai (overlay_ai ov)) x = Some (ai_setting ov x)"
    and "map_of (merge_dicts (merge_dicts default_ai (overlay_ai ov)) (overlay_ai ov)) x =
           Some (ai_setting ov x)"
    and "\<not> is_dict (ai_setting ov x)"
proof -
  let ?a = "overlay_ai ov"
  have da: "distinct (map fst ?a)" using ov by (rule overlay_ai_distinct)
  have e: "ai_setting ov x = (case map_of ?a x of Some v \<Rightarrow> v | None \<Rightarrow> d)"
    using d overlay_ai_lookup [OF ov, of x] by (simp add: ai_setting_def del: lookup_path.simps split: option.splits)
  show n1: "\<not> is_dict (ai_setting ov x)"
  proof (cases "map_of ?a x")
    case None
    with e ndd show ?thesis by simp
  next
    case (Some v)
    then have "(x, v) \<in> set ?a" by (rule map_of_SomeD)
    then have "v \<in> snd ` set ?a" by force
    with nd have "\<not> is_dict v" by blast
    with e Some show ?thesis by simp
  qed
  show m1: "map_of (merge_dicts default_ai ?a) x = Some (ai_setting ov x)"
    using setting_after_merge [OF da d ndd] e by simp
  from setting_after_merge [OF da m1 n1] e
  show "map_of (merge_dicts (merge_dicts default_ai ?a) ?a) x = Some (ai_setting ov x)"
    by (simp split: option.splits)
qed

lemma defaults_hold_ai:
  assumes "defaults_hold s b"
  obtains a where "map_of (DEFAULT_CONFIG s) ''ai'' = Some a" and "store s a = VDict b"
    and "a < fresh s"
proof -
  from assms have sep: "separated s (DEFAULT_CONFIG s)"
    and items: "ref_items s (DEFAULT_CONFIG s) =
      [(''ai'', VDict b), (''commit_style'', VStr ''conventional''),
       (''diff_truncation_limit'', VInt 4000)]"
    by (auto simp: defaults_hold_def)
  from items obtain a0 a1 a2 where dc: "DEFAULT_CONFIG s = [(''ai'', a0), (''commit_style'', a1),
      (''diff_truncation_limit'', a2)]" and s0: "store s a0 = VDict b"
    by (rule ref_items_three)
  from sep dc have "a0 < fresh s" by (simp add: separated_def)
  with dc s0 that [of a0] show ?thesis by simp
qed

lemma get_ai_provider_settings:
  assumes intact: "defaults_intact s" and cfile: "config_file s = Document (VDict ov)"
    and ov: "config_overlay ov"
    and nd: "\<forall>v\<in>snd ` set (overlay_ai ov). \<not> is_dict v"
    and l1: "load_config path s = (s1, cfg1)"
    and l2: "load_config path s1 = (s2, cfg2)"
  shows "config_getitem2 s2 cfg1 ''ai'' x = py_getitem
           (VDict (merge_dicts (merge_dicts default_ai (overlay_ai ov)) (overlay_ai ov))) x"
    and "config_getitem2 s2 cfg2 ''ai'' x = py_getitem
           (VDict (merge_dicts (merge_dicts default_ai (overlay_ai ov)) (overlay_ai ov))) x"
proof -
  let ?a = "overlay_ai ov"
  let ?b1 = "merge_dicts default_ai ?a"
  let ?b2 = "merge_dicts ?b1 ?a"
  from ov have dist: "distinct (map fst ov)" by (simp add: config_overlay_def)
  from intact have h0: "defaults_hold s default_ai" by (simp add: defaults_intact_hold)
  from load_config_defaults [OF h0 cfile dist l1]
  have h1: "defaults_hold s1 ?b1" and dc1: "DEFAULT_CONFIG s1 = DEFAULT_CONFIG s"
    and f1: "config_file s1 = Document (VDict ov)" using cfile by simp_all
  from load_config_defaults [OF h1 f1 dist l2]
  have h2: "defaults_hold s2 ?b2" and dc2: "DEFAULT_CONFIG s2 = DEFAULT_CONFIG s1"
    by simp_all
  have dicts: "\<And>v. (''ai'', v) \<in> set ov \<Longrightarrow> is_dict v"
  proof -
    fix v assume "(''ai'', v) \<in> set ov"
    with dist have "map_of ov ''ai'' = Some v" by simp
    with ov show "is_dict v" by (cases v) (simp_all add: config_overlay_def)
  qed
  from h0 obtain a where m0: "map_of (DEFAULT_CONFIG s) ''ai'' = Some a"
    and st0: "store s a = VDict default_ai" and lt0: "a < fresh s"
    by (rule defaults_hold_ai)
  from h1 obtain a1 where m1: "map_of (DEFAULT_CONFIG s1) ''ai'' = Some a1"
    and st1: "store s1 a1 = VDict ?b1" and lt1: "a1 < fresh s1"
    by (rule defaults_hold_ai)
  from h2 obtain a2 where m2: "map_of (DEFAULT_CONFIG s2) ''ai'' = Some a2"
    and st2: "store s2 a2 = VDict ?b2"
    by (rule defaults_hold_ai)
  from m0 m1 m2 dc1 dc2 have eq: "a1 = a" "a2 = a" by simp_all
  from l1 cfile have r1: "merge_dicts_refs s (DEFAULT_CONFIG s) ov = (s1, cfg1)"
    by (simp add: load_config_document)
  from l2 f1 have r2: "merge_dicts_refs s1 (DEFAULT_CONFIG s1) ov = (s2, cfg2)"
    by (simp add: load_config_document)
  from st0 have st0': "is_dict (store s a)" by simp
  have c1: "map_of cfg1 ''ai'' = Some a"
    using m0 st0' lt0 dicts r1 by (rule merge_dicts_refs_keeps_ref)
  from m1 st1 lt1 eq have m1': "map_of (DEFAULT_CONFIG s1) ''ai'' = Some a"
    and st1': "is_dict (store s1 a)" and lt1': "a < fresh s1" by simp_all
  have c2: "map_of cfg2 ''ai'' = Some a"
    using m1' st1' lt1' dicts r2 by (rule merge_dicts_refs_keeps_ref)
  from c1 st2 eq show "config_getitem2 s2 cfg1 ''ai'' x = py_getitem (VDict ?b2) x"
    by (simp add: config_getitem2_def config_getitem_def)
  from c2 st2 eq show "config_getitem2 s2 cfg2 ''ai'' x = py_getitem (VDict ?b2) x"
    by (simp add: config_getitem2_def config_getitem_def)
qed

lemma get_ai_provider_reads:
  assumes intact: "defaults_intact s" and cfile: "config_file s = Document (VDict ov)"
    and ov: "config_overlay ov"
    and nd: "\<forall>v\<in>snd ` set (overlay_ai ov). \<not> is_dict v"
    and l1: "load_config path s = (s1, cfg1)"
    and l2: "load_config path s1 = (s2, cfg2)"
    and d: "map_of default_ai x = Some d" and ndd: "\<not> is_dict d"
  shows "config_getitem2 s2 cfg1 ''ai'' x = Inr (ai_setting ov x)"
    and "config_getitem2 s2 cfg2 ''ai'' x = Inr (ai_setting ov x)"
  using get_ai_provider_settings [OF intact cfile ov nd l1 l2, of x]
    setting_after_merges(2) [OF ov nd d ndd]
  by simp_all

lemma get_ai_provider_result:
  assumes "defaults_intact s" and "config_file s = Document (VDict ov)"
    and "config_overlay ov"
    and "\<forall>v\<in>snd ` set (overlay_ai ov). \<not> is_dict v"
  shows "snd (get_ai_provider path environ s) =
     (case ai_setting ov ''provider'' of
        VStr name \<Rightarrow>
          if py_lower name = ''openai''
          then Inr (OpenAIProvider_init (resolved_api_key environ ov) (ai_setting ov ''model'')
                      (ai_setting ov ''temperature'') (ai_setting ov ''max_tokens''))
          else Inl (ValueError (''Unsupported AI provider: '' @ py_lower name))
      | _ \<Rightarrow> Inl AttributeError)"
proof -
  obtain s1 cfg1 where l1: "load_config path s = (s1, cfg1)" by (cases "load_config path s")
  obtain s2 cfg2 where l2: "load_config path s1 = (s2, cfg2)" by (cases "load_config path s1")
  note r = get_ai_provider_reads [OF assms(1-4) l1 l2]
  have "config_getitem2 s2 cfg2 ''ai'' ''api_key'' = Inr (ai_setting ov ''api_key'')"
    using r(2) [OF default_leaves(5)] by simp
  then have k: "get_api_key path environ s1 = (s2, Inr (resolved_api_key environ ov))"
    using l2 by (simp add: get_api_key_def resolved_api_key_def split: option.splits)
  have p: "config_getitem2 s2 cfg1 ''ai'' ''provider'' = Inr (ai_setting ov ''provider'')"
    using r(1) [OF default_leaves(1)] by simp
  have m: "config_getitem2 s2 cfg1 ''ai'' ''model'' = Inr (ai_setting ov ''model'')"
    using r(1) [OF default_leaves(2)] by simp
  have t: "config_getitem2 s2 cfg1 ''ai'' ''temperature'' = Inr (ai_setting ov ''temperature'')"
    using r(1) [OF default_leaves(3)] by simp
  have n: "config_getitem2 s2 cfg1 ''ai'' ''max_tokens'' = Inr (ai_setting ov ''max_tokens'')"
    using r(1) [OF default_leaves(4)] by simp
  show ?thesis using l1 k p m t n
    by (cases "ai_setting ov ''provider''") (simp_all add: get_ai_provider_def Let_def)
qed

text \<open>
  C8, as the claim states it, fails in two places. The message of the error does not
  name the provider value of the configuration but its lower-cased form: for the provider
  \<open>Anthropic\<close> it names \<open>anthropic\<close>. And a provider value that is not a string (here the
  number 123) makes \<open>get_ai_provider\<close> raise \<open>AttributeError\<close>, for the missing method
  \<open>lower\<close>, not an error that names the value.
\<close>

theorem get_ai_provider_error_message:
  "snd (get_ai_provider ''config.yaml'' (\<lambda>name. None)
          (initial_state
             (Document (VDict [(''ai'', VDict [(''provider'', VStr ''Anthropic'')])])))) =
     Inl (ValueError ''Unsupported AI provider: anthropic'')
   \<and> ''Unsupported AI provider: anthropic'' \<noteq> ''Unsupported AI provider: Anthropic''
   \<and> snd (get_ai_provider ''config.yaml'' (\<lambda>name. None)
            (initial_state
               (Document (VDict [(''ai'', VDict [(''provider'', VInt 123)])])))) =
       Inl AttributeError"
proof -
  let ?ov1 = "[(''ai'', VDict [(''provider'', VStr ''Anthropic'')])]"
  let ?ov2 = "[(''ai'', VDict [(''provider'', VInt 123)])]"
  have i1: "defaults_intact (initial_state (Document (VDict ?ov1)))"
    and i2: "defaults_intact (initial_state (Document (VDict ?ov2)))"
    by (rule initial_state_intact)+
  have f1: "config_file (initial_state (Document (VDict ?ov1))) = Document (VDict ?ov1)"
    and f2: "config_file (initial_state (Document (VDict ?ov2))) = Document (VDict ?ov2)"
    by (simp_all add: initial_state_def)
  have o1: "config_overlay ?ov1" and o2: "config_overlay ?ov2"
    by (simp_all add: config_overlay_def)
  have n1: "\<forall>v\<in>snd ` set (overlay_ai ?ov1). \<not> is_dict v"
    and n2: "\<forall>v\<in>snd ` set (overlay_ai ?ov2). \<not> is_dict v"
    by (simp_all add: overlay_ai_def)
  have p1: "ai_setting ?ov1 ''provider'' = VStr ''Anthropic''"
    and p2: "ai_setting ?ov2 ''provider'' = VInt 123"
    by (simp_all add: ai_setting_def)
  have lw: "py_lower ''Anthropic'' = ''anthropic''" by code_simp
  from get_ai_provider_result [OF i1 f1 o1 n1, of "''config.yaml''" "\<lambda>name. None"]
    get_ai_provider_result [OF i2 f2 o2 n2, of "''config.yaml''" "\<lambda>name. None"]
  show ?thesis by (simp add: p1 p2 lw)
qed

text \<open>
  C8, amended. Where the defaults are intact and the configuration file holds a
  configuration overlay whose \<open>ai\<close> section has no mapping among its values, the provider
  setting (the file's, or else the default) decides what \<open>get_ai_provider\<close> does. If it is
  a string whose lower-cased form is \<open>openai\<close>, the result is the OpenAI provider whose
  fields are the resolved API key (the environment's, or else the configuration's; the
  empty string when that is empty or null), the model, the temperature and the token cap
  of the configuration, and the fixed address of the service. If it is another string,
  \<open>ValueError\<close> is raised with the message \<open>Unsupported AI provider:\<close> followed by
  the lower-cased provider value. If it is not a string, \<open>AttributeError\<close> is raised.
\<close>

theorem get_ai_provider_selection:
  assumes "defaults_intact s" and "config_file s = Document (VDict ov)"
    and "config_overlay ov"
    and "\<forall>v\<in>snd ` set (overlay_ai ov). \<not> is_dict v"
  shows "snd (get_ai_provider path environ s) =
     (case ai_setting ov ''provider'' of
        VStr name \<Rightarrow>
          if py_lower name = ''openai''
          then Inr (OpenAIProvider
                 \<lparr> api_key = (if py_truthy (resolved_api_key environ ov)
                              then resolved_api_key environ ov else VStr []),
                   model = ai_setting ov ''model'',
                   temperature = ai_setting ov ''temperature'',
                   max_tokens = ai_setting ov ''max_tokens'',
                   api_url = ''https://api.openai.com/v1/chat/completions'' \<rparr>)
          else Inl (ValueError (''Unsupported AI provider: '' @ py_lower name))
      | _ \<Rightarrow> Inl AttributeError)"
  using get_ai_provider_result [OF assms, of path environ]
  by (simp add: OpenAIProvider_init_def split: pyval.splits)

theorem get_ai_provider_selection_witness:
  "snd (get_ai_provider ''config.yaml'' (\<lambda>name. None)
          (initial_state
             (Document (VDict [(''ai'', VDict [(''provider'', VStr ''Gemini'')])])))) =
     Inl (ValueError ''Unsupported AI provider: gemini'')
   \<and> snd (get_ai_provider ''config.yaml''
            (\<lambda>name. if name = ''COMMY_API_KEY'' then Some ''sk-env'' else None)
            (initial_state
               (Document (VDict [(''ai'', VDict [(''provider'', VStr ''OpenAI''),
                                               (''model'', VStr ''gpt-4'')])])))) =
       Inr (OpenAIProvider
              \<lparr> api_key = VStr ''sk-env'', model = VStr ''gpt-4'',
                temperature = VFloat ''0.7'', max_tokens = VInt 100,
                api_url = ''https://api.openai.com/v1/chat/completions'' \<rparr>)
   \<and> snd (get_ai_provider ''config.yaml'' (\<lambda>name. None)
            (initial_state
               (Document (VDict [(''ai'', VDict [(''api_key'', VNone),
                                               (''max_tokens'', VInt 60)])])))) =
       Inr (OpenAIProvider
              \<lparr> api_key = VStr [], model = VStr ''gpt-3.5-turbo'',
                temperature = VFloat ''0.7'', max_tokens = VInt 60,
                api_url = ''https://api.openai.com/v1/chat/completions'' \<rparr>)"
proof -
  let ?ov1 = "[(''ai'', VDict [(''provider'', VStr ''Gemini'')])]"
  let ?ov2 = "[(''ai'', VDict [(''provider'', VStr ''OpenAI''), (''model'', VStr ''gpt-4'')])]"
  let ?ov3 = "[(''ai'', VDict [(''api_key'', VNone), (''max_tokens'', VInt 60)])]"
  let ?env = "\<lambda>name. if name = ''COMMY_API_KEY'' then Some ''sk-env'' else None"
  have i1: "defaults_intact (initial_state (Document (VDict ?ov1)))"
    and i2: "defaults_intact (initial_state (Document (VDict ?ov2)))"
    and i3: "defaults_intact (initial_state (Document (VDict ?ov3)))"
    by (rule initial_state_intact)+
  have f1: "config_file (initial_state (Document (VDict ?ov1))) = Document (VDict ?ov1)"
    and f2: "config_file (initial_state (Document (VDict ?ov2))) = Document (VDict ?ov2)"
    and f3: "config_file (initial_state (Document (VDict ?ov3))) = Document (VDict ?ov3)"
    by (simp_all add: initial_state_def)
  have o1: "config_overlay ?ov1" and o2: "config_overlay ?ov2" and o3: "config_overlay ?ov3"
    by (simp_all add: config_overlay_def)
  have n1: "\<forall>v\<in>snd ` set (overlay_ai ?ov1). \<not> is_dict v"
    and n2: "\<forall>v\<in>snd ` set (overlay_ai ?ov2). \<not> is_dict v"
    and n3: "\<forall>v\<in>snd ` set (overlay_ai ?ov3). \<not> is_dict v"
    by (simp_all add: overlay_ai_def)
  have v1: "ai_setting ?ov1 ''provider'' = VStr ''Gemini''" by (simp add: ai_setting_def)
  have v2: "ai_setting ?ov2 ''provider'' = VStr ''OpenAI''"
    "resolved_api_key ?env ?ov2 = VStr ''sk-env''"
    "ai_setting ?ov2 ''model'' = VStr ''gpt-4''"
    "ai_setting ?ov2 ''temperature'' = VFloat ''0.7''"
    "ai_setting ?ov2 ''max_tokens'' = VInt 100"
    by (simp_all add: resolved_api_key_def ai_setting_def default_ai_def)
  have v3: "ai_setting ?ov3 ''provider'' = VStr ''openai''"
    "resolved_api_key (\<lambda>name. None) ?ov3 = VNone"
    "ai_setting ?ov3 ''model'' = VStr ''gpt-3.5-turbo''"
    "ai_setting ?ov3 ''temperature'' = VFloat ''0.7''"
    "ai_setting ?ov3 ''max_tokens'' = VInt 60"
    by (simp_all add: resolved_api_key_def ai_setting_def default_ai_def)
  have lw: "py_lower ''Gemini'' = ''gemini''" "py_lower ''OpenAI'' = ''openai''"
    "py_lower ''openai'' = ''openai''"
    by code_simp+
  from get_ai_provider_selection [OF i1 f1 o1 n1, of "''config.yaml''" "\<lambda>name. None"]
    get_ai_provider_selection [OF i2 f2 o2 n2, of "''config.yaml''" ?env]
    get_ai_provider_selection [OF i3 f3 o3 n3, of "''config.yaml''" "\<lambda>name. None"]
  show ?thesis by (simp add: v1 v2 v3 lw)
qed

end
